theory Spec2Isabelle
  imports Main
begin

section \<open>Data model (models.py)\<close>

text \<open>
  A \<open>datetime\<close> is naive (a wall-clock reading: a point on the integer time line, in
  microseconds) or aware (a reading together with its UTC offset). Two naive values
  compare by their readings; comparing a naive with an aware value raises
  \<open>TypeError\<close>. \<open>datetime.now()\<close> returns a naive value: every call of it in
  the source is a parameter \<open>now\<close> of the function that makes it, the reading of the
  clock.
\<close>

type_synonym timestamp = int

datatype datetime = Naive timestamp | Aware timestamp int

datatype TaskStatus = pending | in_progress | completed | cancelled

datatype TaskPriority = low | medium | high | urgent

text \<open>
  The table class \<open>Task\<close>. An attribute holds whatever was last assigned to it: the
  class does not validate on assignment, so \<open>setattr\<close> can leave \<open>None\<close> in
  \<open>title\<close>, \<open>status\<close> and \<open>priority\<close> although their annotations are not
  \<open>Optional\<close>. The annotations decide the columns instead: \<open>id\<close> is the primary
  key, and \<open>title\<close>, \<open>status\<close>, \<open>priority\<close> and \<open>created_at\<close> are NOT NULL
  columns (see \<open>not_null_ok\<close> below). The field \<open>id\<close> is named \<open>id_of\<close> here.
\<close>

record Task =
  id_of :: "int option"
  title :: "string option"
  description :: "string option"
  status :: "TaskStatus option"
  priority :: "TaskPriority option"
  created_at :: datetime
  updated_at :: "datetime option"
  due_date :: "datetime option"
  assigned_to :: "string option"

text \<open>
  The candidate field values a model class is built from (a parsed request body). A field
  is either left out (\<open>Unset\<close>) or given a value, and the value given may be null
  (\<open>Given None\<close>). Values of the wrong type (a number for a title, an unknown status
  name) are excluded by the types.
\<close>

datatype 'a supplied = Unset | Given 'a

record payload =
  p_title :: "string option supplied"
  p_description :: "string option supplied"
  p_status :: "TaskStatus option supplied"
  p_priority :: "TaskPriority option supplied"
  p_due_date :: "datetime option supplied"
  p_assigned_to :: "string option supplied"

text \<open>A validated \<open>TaskCreate\<close> object.\<close>

record TaskCreate =
  c_title :: string
  c_description :: "string option"
  c_status :: TaskStatus
  c_priority :: TaskPriority
  c_due_date :: "datetime option"
  c_assigned_to :: "string option"

text \<open>
  A validated \<open>TaskUpdate\<close> object. Every field is \<open>Optional\<close> with default
  \<open>None\<close>; the object remembers which fields were set (\<open>exclude_unset\<close> reads that),
  so each field is \<open>Unset\<close> or \<open>Given\<close> its validated value.
\<close>

record TaskUpdate =
  u_title :: "string option supplied"
  u_description :: "string option supplied"
  u_status :: "TaskStatus option supplied"
  u_priority :: "TaskPriority option supplied"
  u_due_date :: "datetime option supplied"
  u_assigned_to :: "string option supplied"

text \<open>
  The exceptions. A validator raises \<open>ValueError\<close> with its message; the validation
  of a model class raises \<open>ValidationError\<close> with the failed fields and their
  messages; \<open>TypeError\<close> is the comparison of a naive with an aware datetime;
  \<open>OverflowError\<close> and \<open>IntegrityError\<close> come from the store.
\<close>

datatype error =
    ValueError string
  | TypeError
  | ValidationError "(string \<times> string) list"
  | OverflowError
  | IntegrityError
  | HTTPException nat string

subsection \<open>Strings\<close>

text \<open>
  A \<open>str\<close> is a list of characters with code points below 256; \<open>isspace\<close> is
  \<open>str.isspace\<close> on that range, and \<open>strip\<close> is \<open>str.strip()\<close> without arguments.
\<close>

definition whitespace :: "char list" where
  "whitespace = [CHR 0x09, CHR 0x0A, CHR 0x0B, CHR 0x0C, CHR 0x0D, CHR 0x1C, CHR 0x1D,
                 CHR 0x1E, CHR 0x1F, CHR 0x20, CHR 0x85, CHR 0xA0]"

definition isspace :: "char \<Rightarrow> bool" where
  "isspace c = (c \<in> set whitespace)"

definition strip :: "string \<Rightarrow> string" where
  "strip v = rev (dropWhile isspace (rev (dropWhile isspace v)))"

subsection \<open>Field validators\<close>

text \<open>
  A validator returns \<open>Inl\<close> the exception it raises, or \<open>Inr\<close> the value it
  returns. \<open>not v\<close> on a string is \<open>v = []\<close>; a datetime is always truthy, so
  \<open>v and v <= datetime.now()\<close> tests \<open>v is not None\<close> first and then compares
  \<open>v\<close> with the naive \<open>datetime.now()\<close>, which raises \<open>TypeError\<close> when
  \<open>v\<close> is aware.
\<close>

definition TaskCreate_validate_title :: "string \<Rightarrow> error + string" where
  "TaskCreate_validate_title v =
     (if v = [] \<or> strip v = [] then Inl (ValueError ''Title cannot be empty or whitespace only'')
      else Inr (strip v))"

definition TaskCreate_validate_due_date :: "timestamp \<Rightarrow> datetime option \<Rightarrow> error + datetime option" where
  "TaskCreate_validate_due_date now v =
     (case v of
        Some (Naive d) \<Rightarrow>
          if d \<le> now then Inl (ValueError ''Due date must be in the future'') else Inr v
      | Some (Aware d offset) \<Rightarrow> Inl TypeError
      | None \<Rightarrow> Inr v)"

definition TaskUpdate_validate_title :: "string option \<Rightarrow> error + string option" where
  "TaskUpdate_validate_title v =
     (case v of
        Some s \<Rightarrow>
          if s = [] \<or> strip s = []
          then Inl (ValueError ''Title cannot be empty or whitespace only'')
          else Inr (Some (strip s))
      | None \<Rightarrow> Inr v)"

definition TaskUpdate_validate_due_date :: "timestamp \<Rightarrow> datetime option \<Rightarrow> error + datetime option" where
  "TaskUpdate_validate_due_date now v =
     (case v of
        Some (Naive d) \<Rightarrow>
          if d \<le> now then Inl (ValueError ''Due date must be in the future'') else Inr v
      | Some (Aware d offset) \<Rightarrow> Inl TypeError
      | None \<Rightarrow> Inr v)"

subsection \<open>Building the model classes\<close>

text \<open>
  What the declarations of a class do with one field: \<open>Field(max_length=n)\<close> bounds the
  length of a string, a field without a default is required, a field whose annotation is
  not \<open>Optional\<close> refuses null, a field that is left out takes its default without its
  validator being run, and a \<open>@validator\<close> runs after the type and length checks.
\<close>

definition max_length :: "nat \<Rightarrow> string \<Rightarrow> error + string" where
  "max_length n v =
     (if length v > n then Inl (ValueError ''String should have at most n characters'')
      else Inr v)"

definition optional_str :: "nat \<Rightarrow> string option \<Rightarrow> error + string option" where
  "optional_str n v =
     (case v of
        None \<Rightarrow> Inr None
      | Some s \<Rightarrow> (case max_length n s of Inl e \<Rightarrow> Inl e | Inr s' \<Rightarrow> Inr (Some s')))"

definition and_then :: "error + 'a \<Rightarrow> ('a \<Rightarrow> error + 'b) \<Rightarrow> error + 'b" where
  "and_then r f = (case r of Inl e \<Rightarrow> Inl e | Inr v \<Rightarrow> f v)"

definition required :: "'a option supplied \<Rightarrow> error + 'a" where
  "required f =
     (case f of
        Unset \<Rightarrow> Inl (ValueError ''Field required'')
      | Given None \<Rightarrow> Inl (ValueError ''Input should not be null'')
      | Given (Some v) \<Rightarrow> Inr v)"

definition with_default :: "'a \<Rightarrow> 'a option supplied \<Rightarrow> error + 'a" where
  "with_default d f =
     (case f of
        Unset \<Rightarrow> Inr d
      | Given None \<Rightarrow> Inl (ValueError ''Input should not be null'')
      | Given (Some v) \<Rightarrow> Inr v)"

definition optional_field :: "('a option \<Rightarrow> error + 'a option) \<Rightarrow> 'a option supplied \<Rightarrow> error + 'a option" where
  "optional_field check f = (case f of Unset \<Rightarrow> Inr None | Given v \<Rightarrow> check v)"

definition update_field :: "('a option \<Rightarrow> error + 'a option) \<Rightarrow> 'a option supplied \<Rightarrow> error + 'a option supplied" where
  "update_field check f =
     (case f of
        Unset \<Rightarrow> Inr Unset
      | Given v \<Rightarrow> (case check v of Inl e \<Rightarrow> Inl e | Inr v' \<Rightarrow> Inr (Given v')))"

definition message :: "error \<Rightarrow> string" where
  "message e = (case e of ValueError m \<Rightarrow> m | _ \<Rightarrow> [])"

definition field_error :: "string \<Rightarrow> error + 'a \<Rightarrow> (string \<times> string) list" where
  "field_error name r = (case r of Inl e \<Rightarrow> [(name, message e)] | Inr _ \<Rightarrow> [])"

text \<open>
  \<open>TaskCreate(**data)\<close>: every field is checked, and the errors of all fields are
  raised together as one validation error; with no error, each field holds the value its
  checks returned (\<open>projr\<close> reads it). Only a \<open>ValueError\<close> of a validator
  becomes the error of its field: the \<open>TypeError\<close> of \<open>validate_due_date\<close> is
  not caught and propagates out of the validation. \<open>now\<close> is the clock read by
  \<open>validate_due_date\<close>.
\<close>

definition TaskCreate_validate :: "timestamp \<Rightarrow> payload \<Rightarrow> error + TaskCreate" where
  "TaskCreate_validate now p =
     (let r_title = and_then (and_then (required (p_title p)) (max_length 200)) TaskCreate_validate_title;
          r_description = optional_field (optional_str 1000) (p_description p);
          r_status = with_default pending (p_status p);
          r_priority = with_default medium (p_priority p);
          r_due_date = optional_field (TaskCreate_validate_due_date now) (p_due_date p);
          r_assigned_to = optional_field (optional_str 100) (p_assigned_to p);
          errors = field_error ''title'' r_title @ field_error ''description'' r_description
                 @ field_error ''status'' r_status @ field_error ''priority'' r_priority
                 @ field_error ''due_date'' r_due_date @ field_error ''assigned_to'' r_assigned_to
      in if r_due_date = Inl TypeError then Inl TypeError
         else if errors \<noteq> [] then Inl (ValidationError errors)
         else Inr \<lparr>c_title = projr r_title, c_description = projr r_description,
                   c_status = projr r_status, c_priority = projr r_priority,
                   c_due_date = projr r_due_date, c_assigned_to = projr r_assigned_to\<rparr>)"

text \<open>\<open>TaskUpdate(**data)\<close>: every field is optional and accepts null.\<close>

definition TaskUpdate_validate :: "timestamp \<Rightarrow> payload \<Rightarrow> error + TaskUpdate" where
  "TaskUpdate_validate now p =
     (let r_title = update_field (\<lambda>v. and_then (optional_str 200 v) TaskUpdate_validate_title) (p_title p);
          r_description = update_field (optional_str 1000) (p_description p);
          r_status = update_field Inr (p_status p);
          r_priority = update_field Inr (p_priority p);
          r_due_date = update_field (TaskUpdate_validate_due_date now) (p_due_date p);
          r_assigned_to = update_field (optional_str 100) (p_assigned_to p);
          errors = field_error ''title'' r_title @ field_error ''description'' r_description
                 @ field_error ''status'' r_status @ field_error ''priority'' r_priority
                 @ field_error ''due_date'' r_due_date @ field_error ''assigned_to'' r_assigned_to
      in if r_due_date = Inl TypeError then Inl TypeError
         else if errors \<noteq> [] then Inl (ValidationError errors)
         else Inr \<lparr>u_title = projr r_title, u_description = projr r_description,
                   u_status = projr r_status, u_priority = projr r_priority,
                   u_due_date = projr r_due_date, u_assigned_to = projr r_assigned_to\<rparr>)"

text \<open>
  \<open>Task.model_validate(task)\<close> reads the attributes of a \<open>TaskCreate\<close> object into a
  new \<open>Task\<close>, checking the lengths that \<open>Task\<close> declares. \<open>id\<close> and
  \<open>updated_at\<close> take their default \<open>None\<close>, \<open>created_at\<close> its
  \<open>default_factory\<close>, the clock \<open>now\<close>.
\<close>

definition Task_model_validate :: "timestamp \<Rightarrow> TaskCreate \<Rightarrow> error + Task" where
  "Task_model_validate now task =
     (let r_title = max_length 200 (c_title task);
          r_description = optional_str 1000 (c_description task);
          r_assigned_to = optional_str 100 (c_assigned_to task);
          errors = field_error ''title'' r_title @ field_error ''description'' r_description
                 @ field_error ''assigned_to'' r_assigned_to
      in if errors \<noteq> [] then Inl (ValidationError errors)
         else Inr \<lparr>id_of = None, title = Some (projr r_title), description = projr r_description,
                   status = Some (c_status task), priority = Some (c_priority task),
                   created_at = Naive now, updated_at = None,
                   due_date = c_due_date task, assigned_to = projr r_assigned_to\<rparr>)"

section \<open>The store (database.py)\<close>

text \<open>
  The engine is SQLite with the one table that \<open>Task\<close> declares. The table is the list
  of its rows in rowid order, the order in which a \<open>SELECT\<close> without \<open>ORDER BY\<close>
  scans it. \<open>commits\<close> counts the transactions committed on the session.
\<close>

record session =
  table :: "Task list"
  commits :: nat

text \<open>
  An integer of SQLite is a signed 64-bit integer. Binding a Python \<open>int\<close> outside
  that range to a statement raises \<open>OverflowError\<close>.
\<close>

definition int64 :: "int \<Rightarrow> bool" where
  "int64 i = (- (2 ^ 63) \<le> i \<and> i < 2 ^ 63)"

definition bind :: "int \<Rightarrow> error + int" where
  "bind i = (if int64 i then Inr i else Inl OverflowError)"

definition rowids :: "Task list \<Rightarrow> int list" where
  "rowids rows = List.map_filter id_of rows"

text \<open>
  The integer primary key is the rowid. A row inserted without one gets 1 in an empty
  table and otherwise one more than the largest rowid in use, as long as that is below
  the largest 64-bit integer (beyond it SQLite picks an unused rowid at random, which is
  not modelled: see \<open>below_max_rowid\<close>).
\<close>

definition next_id :: "Task list \<Rightarrow> int" where
  "next_id rows = (case rowids rows of [] \<Rightarrow> 1 | i # ids \<Rightarrow> fold max ids i + 1)"

text \<open>
  \<open>create_db_and_tables\<close> creates the table from the class \<open>Task\<close>. A field
  annotated \<open>Optional\<close> becomes a nullable column; \<open>title: str\<close>,
  \<open>status: TaskStatus\<close> and \<open>priority: TaskPriority\<close> are not, so their columns
  are NOT NULL: an \<open>INSERT\<close> or \<open>UPDATE\<close> that writes null there fails, the
  commit raises an integrity error, and the transaction is rolled back.
\<close>

definition not_null_ok :: "Task \<Rightarrow> bool" where
  "not_null_ok t = (title t \<noteq> None \<and> status t \<noteq> None \<and> priority t \<noteq> None)"

text \<open>
  \<open>session.add(t); session.commit(); session.refresh(t)\<close> for a new object (its
  \<open>id\<close> is \<open>None\<close>): the row is inserted under the next rowid and read back.
\<close>

definition commit_insert :: "session \<Rightarrow> Task \<Rightarrow> error + (Task \<times> session)" where
  "commit_insert s t =
     (if \<not> not_null_ok t then Inl IntegrityError
      else let row = t\<lparr>id_of := Some (next_id (table s))\<rparr>
           in Inr (row, \<lparr>table = table s @ [row], commits = commits s + 1\<rparr>))"

text \<open>The same three calls for an object loaded from the table: its row is rewritten.\<close>

definition commit_update :: "session \<Rightarrow> Task \<Rightarrow> error + (Task \<times> session)" where
  "commit_update s t =
     (if \<not> not_null_ok t then Inl IntegrityError
      else Inr (t, \<lparr>table = map (\<lambda>row. if id_of row = id_of t then t else row) (table s),
                    commits = commits s + 1\<rparr>))"

text \<open>\<open>session.delete(t); session.commit()\<close>.\<close>

definition commit_delete :: "session \<Rightarrow> Task \<Rightarrow> session" where
  "commit_delete s t =
     \<lparr>table = filter (\<lambda>row. id_of row \<noteq> id_of t) (table s), commits = commits s + 1\<rparr>"

text \<open>
  A \<open>select\<close> statement: its \<open>where\<close> clauses, and \<open>offset\<close> and \<open>limit\<close> when
  set. In SQLite a negative \<open>OFFSET\<close> skips nothing and a negative \<open>LIMIT\<close> is no
  limit.
\<close>

datatype clause = Status_eq TaskStatus | Priority_eq TaskPriority

fun holds :: "Task \<Rightarrow> clause \<Rightarrow> bool" where
  "holds row (Status_eq v) = (status row = Some v)"
| "holds row (Priority_eq v) = (priority row = Some v)"

definition matching :: "clause list \<Rightarrow> Task list \<Rightarrow> Task list" where
  "matching clauses rows = filter (\<lambda>row. list_all (holds row) clauses) rows"

definition sql_offset :: "int \<Rightarrow> 'a list \<Rightarrow> 'a list" where
  "sql_offset n rows = (if n < 0 then rows else drop (nat n) rows)"

definition sql_limit :: "int \<Rightarrow> 'a list \<Rightarrow> 'a list" where
  "sql_limit n rows = (if n < 0 then rows else take (nat n) rows)"

text \<open>
  Executing a statement with the parameters \<open>limit\<close> and \<open>offset\<close> bound to it.
\<close>

definition exec_page :: "int \<Rightarrow> int \<Rightarrow> 'a list \<Rightarrow> error + 'a list" where
  "exec_page offset limit rows =
     (case bind limit of
        Inl e \<Rightarrow> Inl e
      | Inr l \<Rightarrow>
          (case bind offset of
             Inl e \<Rightarrow> Inl e
           | Inr k \<Rightarrow> Inr (sql_limit l (sql_offset k rows))))"

section \<open>Persistence operations (crud.py)\<close>

text \<open>
  Each operation takes the session and returns it with its result; an exception is
  \<open>Inl\<close>, and leaves the caller with the session it had. \<open>now\<close> is the clock
  the operation reads.
\<close>

definition create_task :: "session \<Rightarrow> timestamp \<Rightarrow> TaskCreate \<Rightarrow> error + (Task \<times> session)" where
  "create_task s now task =
     (case Task_model_validate now task of
        Inl e \<Rightarrow> Inl e
      | Inr db_task \<Rightarrow> commit_insert s db_task)"

definition get_task :: "session \<Rightarrow> int \<Rightarrow> error + Task option" where
  "get_task s task_id =
     (case bind task_id of
        Inl e \<Rightarrow> Inl e
      | Inr i \<Rightarrow> Inr (find (\<lambda>row. id_of row = Some i) (table s)))"

text \<open>
  \<open>if status:\<close> and \<open>if priority:\<close> test for \<open>None\<close>: every member of the two
  enumerations is a non-empty string, hence truthy.
\<close>

definition get_tasks :: "session \<Rightarrow> int \<Rightarrow> int \<Rightarrow> TaskStatus option \<Rightarrow> TaskPriority option \<Rightarrow> error + (Task list \<times> int)" where
  "get_tasks s skip limit status_arg priority_arg =
     (let statement = [];
          statement = (case status_arg of Some v \<Rightarrow> statement @ [Status_eq v] | None \<Rightarrow> statement);
          statement = (case priority_arg of Some v \<Rightarrow> statement @ [Priority_eq v] | None \<Rightarrow> statement);
          count_statement = [];
          count_statement = (case status_arg of Some v \<Rightarrow> count_statement @ [Status_eq v] | None \<Rightarrow> count_statement);
          count_statement = (case priority_arg of Some v \<Rightarrow> count_statement @ [Priority_eq v] | None \<Rightarrow> count_statement);
          total = int (length (matching count_statement (table s)))
      in case exec_page skip limit (matching statement (table s)) of
           Inl e \<Rightarrow> Inl e
         | Inr tasks \<Rightarrow> Inr (tasks, total))"

definition get_tasks_by_status :: "session \<Rightarrow> TaskStatus \<Rightarrow> int \<Rightarrow> int \<Rightarrow> error + (Task list \<times> int)" where
  "get_tasks_by_status s status_arg skip limit = get_tasks s skip limit (Some status_arg) None"

definition get_tasks_by_priority :: "session \<Rightarrow> TaskPriority \<Rightarrow> int \<Rightarrow> int \<Rightarrow> error + (Task list \<times> int)" where
  "get_tasks_by_priority s priority_arg skip limit = get_tasks s skip limit None (Some priority_arg)"

text \<open>
  \<open>task_update.dict(exclude_unset=True)\<close> is the list of the fields that were set, in
  the order of their declaration, each with its value; \<open>setattr\<close> assigns one of them.
\<close>

datatype item =
    Title "string option"
  | Description "string option"
  | Status "TaskStatus option"
  | Priority "TaskPriority option"
  | Due_date "datetime option"
  | Assigned_to "string option"
  | Updated_at "datetime option"

definition entry :: "('a \<Rightarrow> item) \<Rightarrow> 'a supplied \<Rightarrow> item list" where
  "entry key f = (case f of Unset \<Rightarrow> [] | Given v \<Rightarrow> [key v])"

definition dict_exclude_unset :: "TaskUpdate \<Rightarrow> item list" where
  "dict_exclude_unset u =
     entry Title (u_title u) @ entry Description (u_description u) @ entry Status (u_status u)
     @ entry Priority (u_priority u) @ entry Due_date (u_due_date u)
     @ entry Assigned_to (u_assigned_to u)"

fun setattr :: "Task \<Rightarrow> item \<Rightarrow> Task" where
  "setattr t (Title v) = t\<lparr>title := v\<rparr>"
| "setattr t (Description v) = t\<lparr>description := v\<rparr>"
| "setattr t (Status v) = t\<lparr>status := v\<rparr>"
| "setattr t (Priority v) = t\<lparr>priority := v\<rparr>"
| "setattr t (Due_date v) = t\<lparr>due_date := v\<rparr>"
| "setattr t (Assigned_to v) = t\<lparr>assigned_to := v\<rparr>"
| "setattr t (Updated_at v) = t\<lparr>updated_at := v\<rparr>"

definition update_task :: "session \<Rightarrow> timestamp \<Rightarrow> int \<Rightarrow> TaskUpdate \<Rightarrow> error + (Task option \<times> session)" where
  "update_task s now task_id task_update =
     (case get_task s task_id of
        Inl e \<Rightarrow> Inl e
      | Inr None \<Rightarrow> Inr (None, s)
      | Inr (Some db_task) \<Rightarrow>
          (let update_data = dict_exclude_unset task_update
           in if update_data \<noteq> [] then
                (let update_data = update_data @ [Updated_at (Some (Naive now))];
                     db_task = foldl setattr db_task update_data
                 in case commit_update s db_task of
                      Inl e \<Rightarrow> Inl e
                    | Inr (db_task, s') \<Rightarrow> Inr (Some db_task, s'))
              else Inr (Some db_task, s)))"

definition delete_task :: "session \<Rightarrow> int \<Rightarrow> error + (bool \<times> session)" where
  "delete_task s task_id =
     (case get_task s task_id of
        Inl e \<Rightarrow> Inl e
      | Inr None \<Rightarrow> Inr (False, s)
      | Inr (Some db_task) \<Rightarrow> Inr (True, commit_delete s db_task))"

section \<open>Request handlers (main.py)\<close>

text \<open>
  The handlers \<open>create_task\<close>, \<open>update_task\<close> and \<open>delete_task\<close> of main.py are
  named \<open>main_create_task\<close>, \<open>main_update_task\<close> and \<open>main_delete_task\<close>. A model
  object is truthy, so \<open>if not task:\<close> tests for \<open>None\<close>.
\<close>

definition main_create_task :: "session \<Rightarrow> timestamp \<Rightarrow> TaskCreate \<Rightarrow> error + (Task \<times> session)" where
  "main_create_task s now task = create_task s now task"

definition read_task :: "session \<Rightarrow> int \<Rightarrow> error + Task" where
  "read_task s task_id =
     (case get_task s task_id of
        Inl e \<Rightarrow> Inl e
      | Inr None \<Rightarrow> Inl (HTTPException 404 ''Task not found'')
      | Inr (Some task) \<Rightarrow> Inr task)"

definition main_update_task :: "session \<Rightarrow> timestamp \<Rightarrow> int \<Rightarrow> TaskUpdate \<Rightarrow> error + (Task \<times> session)" where
  "main_update_task s now task_id task_update =
     (case update_task s now task_id task_update of
        Inl e \<Rightarrow> Inl e
      | Inr (None, s') \<Rightarrow> Inl (HTTPException 404 ''Task not found'')
      | Inr (Some task, s') \<Rightarrow> Inr (task, s'))"

definition main_delete_task :: "session \<Rightarrow> int \<Rightarrow> error + (string \<times> session)" where
  "main_delete_task s task_id =
     (case delete_task s task_id of
        Inl e \<Rightarrow> Inl e
      | Inr (False, s') \<Rightarrow> Inl (HTTPException 404 ''Task not found'')
      | Inr (True, s') \<Rightarrow> Inr (''Task deleted successfully'', s'))"




text \<open>
  A request: the body is validated into its model class first (at the time \<open>t_valid\<close>),
  then the handler runs (reading the clock at \<open>t_run\<close>); a \<open>TaskCreate\<close> or
  \<open>TaskUpdate\<close> object only exists validated. A request that fails leaves the store
  as it was. \<open>run\<close> serves a sequence of requests from the empty store.
\<close>

datatype request =
    POST_tasks timestamp timestamp payload
  | PUT_tasks timestamp timestamp int payload
  | DELETE_tasks int

fun serve :: "session \<Rightarrow> request \<Rightarrow> session" where
  "serve s (POST_tasks t_valid t_run body) =
     (case TaskCreate_validate t_valid body of
        Inl e \<Rightarrow> s
      | Inr task \<Rightarrow> (case main_create_task s t_run task of Inl e \<Rightarrow> s | Inr (r, s') \<Rightarrow> s'))"
| "serve s (PUT_tasks t_valid t_run task_id body) =
     (case TaskUpdate_validate t_valid body of
        Inl e \<Rightarrow> s
      | Inr task_update \<Rightarrow>
          (case main_update_task s t_run task_id task_update of Inl e \<Rightarrow> s | Inr (r, s') \<Rightarrow> s'))"
| "serve s (DELETE_tasks task_id) =
     (case main_delete_task s task_id of Inl e \<Rightarrow> s | Inr (r, s') \<Rightarrow> s')"

definition empty_store :: session where
  "empty_store = \<lparr>table = [], commits = 0\<rparr>"

definition run :: "request list \<Rightarrow> session" where
  "run requests = foldl serve empty_store requests"

section \<open>The properties stated\<close>

text \<open>A string is blank when it is empty or consists of whitespace only.\<close>

definition blank :: "string \<Rightarrow> bool" where
  "blank v = (v = [] \<or> list_all isspace v)"

text \<open>The fields that a failed validation reports, in the order reported.\<close>

definition failed_fields :: "error + 'a \<Rightarrow> string list" where
  "failed_fields r = (case r of Inl (ValidationError errors) \<Rightarrow> map fst errors | _ \<Rightarrow> [])"

text \<open>
  The invariant of a persisted task: a title that is not blank after trimming, and a
  status and a priority among the enumerated values.
\<close>

definition valid_task :: "Task \<Rightarrow> bool" where
  "valid_task t =
     ((case title t of None \<Rightarrow> False | Some v \<Rightarrow> \<not> blank (strip v))
      \<and> status t \<in> set [Some pending, Some in_progress, Some completed, Some cancelled]
      \<and> priority t \<in> set [Some low, Some medium, Some high, Some urgent])"

text \<open>A partial input that supplies no fields, and the value a field has after an update.\<close>

definition no_fields :: "TaskUpdate \<Rightarrow> bool" where
  "no_fields u =
     (u_title u = Unset \<and> u_description u = Unset \<and> u_status u = Unset
      \<and> u_priority u = Unset \<and> u_due_date u = Unset \<and> u_assigned_to u = Unset)"

definition updated :: "'a supplied \<Rightarrow> 'a \<Rightarrow> 'a" where
  "updated f old = (case f of Unset \<Rightarrow> old | Given v \<Rightarrow> v)"


text \<open>
  The largest rowid in use is below the largest 64-bit integer, and every rowid is a
  64-bit integer: then the next rowid is the largest in use plus one.
\<close>

definition below_max_rowid :: "Task list \<Rightarrow> bool" where
  "below_max_rowid rows = list_all (\<lambda>i. - (2 ^ 63) \<le> i \<and> i < 2 ^ 63 - 1) (rowids rows)"

text \<open>A due date that is given and aware.\<close>

definition due_date_aware :: "payload \<Rightarrow> bool" where
  "due_date_aware p =
     (case p_due_date p of Given (Some (Aware d offset)) \<Rightarrow> True | _ \<Rightarrow> False)"

text \<open>A request body with no field, to write concrete bodies from.\<close>

definition no_body :: payload where
  "no_body = \<lparr>p_title = Unset, p_description = Unset, p_status = Unset,
               p_priority = Unset, p_due_date = Unset, p_assigned_to = Unset\<rparr>"

text \<open>A concrete body, the task it creates in the empty store, and the store after that.\<close>

definition milk_body :: payload where
  "milk_body = no_body\<lparr>p_title := Given (Some '' Buy milk  ''), p_priority := Given (Some high)\<rparr>"

definition milk :: Task where
  "milk = \<lparr>id_of = Some 1, title = Some ''Buy milk'', description = None,
           status = Some pending, priority = Some high, created_at = Naive 11,
           updated_at = None, due_date = None, assigned_to = None\<rparr>"

definition milk_store :: session where
  "milk_store = \<lparr>table = [milk], commits = 1\<rparr>"

section \<open>Proofs\<close>

subsection \<open>Strings and validation\<close>

lemma dropWhile_fix: "xs = [] \<or> \<not> P (hd xs) \<Longrightarrow> dropWhile P xs = xs"
  by (cases xs) auto

lemma strip_props:
  "strip v = [] \<or> (\<not> isspace (hd (strip v)) \<and> \<not> isspace (last (strip v)))"
proof (cases "strip v = []")
  case True then show ?thesis by simp
next
  case False
  define a where "a = dropWhile isspace v"
  define b where "b = dropWhile isspace (rev a)"
  have sv: "strip v = rev b" by (simp add: strip_def a_def b_def)
  with False have bne: "b \<noteq> []" by simp
  then have hb: "\<not> isspace (hd b)" unfolding b_def by (rule hd_dropWhile)
  have "\<exists>ys. rev a = ys @ b" unfolding b_def
    by (metis takeWhile_dropWhile_id)
  then obtain ys where ys: "rev a = ys @ b" by blast
  then have a_eq: "a = rev b @ rev ys" by (metis rev_append rev_rev_ident)
  have ane: "a \<noteq> []" using a_eq bne by simp
  then have "\<not> isspace (hd a)" unfolding a_def by (rule hd_dropWhile)
  moreover have "hd a = hd (rev b)" using a_eq bne by simp
  ultimately have "\<not> isspace (hd (strip v))" using sv by simp
  moreover have "last (strip v) = hd b" using sv bne by (simp add: last_rev)
  ultimately show ?thesis using hb by simp
qed

lemma strip_fix:
  assumes "xs = [] \<or> (\<not> isspace (hd xs) \<and> \<not> isspace (last xs))"
  shows "strip xs = xs"
proof (cases "xs = []")
  case True then show ?thesis by (simp add: strip_def)
next
  case False
  with assms have h: "\<not> isspace (hd xs)" and l: "\<not> isspace (last xs)" by auto
  have 1: "dropWhile isspace xs = xs" using h False by (simp add: dropWhile_fix)
  have "hd (rev xs) = last xs" using False by (simp add: hd_rev)
  then have 2: "dropWhile isspace (rev xs) = rev xs" using l False by (simp add: dropWhile_fix)
  show ?thesis by (simp add: strip_def 1 2)
qed

lemma strip_idem: "strip (strip v) = strip v"
  by (rule strip_fix) (rule strip_props)

lemma length_strip: "length (strip v) \<le> length v"
proof -
  have "length (dropWhile isspace (rev (dropWhile isspace v))) \<le> length (rev (dropWhile isspace v))"
    by (rule length_dropWhile_le)
  also have "\<dots> \<le> length v" by (simp add: length_dropWhile_le)
  finally show ?thesis by (simp add: strip_def)
qed

lemma strip_Nil: "strip [] = []"
  by (simp add: strip_def)

lemma field_error_Nil: "(field_error name r = []) = (\<exists>v. r = Inr v)"
  by (cases r) (simp_all add: field_error_def)


lemma and_then_Inr: "(and_then r f = Inr y) = (\<exists>x. r = Inr x \<and> f x = Inr y)"
  by (cases r) (simp_all add: and_then_def)

lemma required_Inr: "(required f = Inr v) = (f = Given (Some v))"
  by (simp add: required_def split: supplied.splits option.splits)

lemma with_default_Inr: "(with_default d f = Inr v) = (f = Unset \<and> v = d \<or> f = Given (Some v))"
  by (auto simp: with_default_def split: supplied.splits option.splits)

lemma max_length_Inr: "(max_length n v = Inr w) = (length v \<le> n \<and> w = v)"
  by (auto simp: max_length_def)

lemma optional_str_Inr:
  "(optional_str n v = Inr w) = (w = v \<and> (\<forall>s. v = Some s \<longrightarrow> length s \<le> n))"
  by (auto simp: optional_str_def max_length_def split: option.splits)

lemma optional_field_Inr:
  "(optional_field check f = Inr w) = (f = Unset \<and> w = None \<or> (\<exists>v. f = Given v \<and> check v = Inr w))"
  by (auto simp: optional_field_def split: supplied.splits)

lemma update_field_Inr:
  "(update_field check f = Inr w) =
     (f = Unset \<and> w = Unset \<or> (\<exists>v v'. f = Given v \<and> check v = Inr v' \<and> w = Given v'))"
  by (auto simp: update_field_def split: supplied.splits sum.splits)

lemma TaskCreate_validate_title_Inr:
  "(TaskCreate_validate_title v = Inr t) = (strip v \<noteq> [] \<and> t = strip v)"
  by (auto simp: TaskCreate_validate_title_def strip_Nil)

lemma TaskUpdate_validate_title_Inr:
  "(TaskUpdate_validate_title v = Inr t) =
     (v = None \<and> t = None \<or> (\<exists>s. v = Some s \<and> strip s \<noteq> [] \<and> t = Some (strip s)))"
  by (auto simp: TaskUpdate_validate_title_def strip_Nil split: option.splits)



lemma TaskCreate_due_date_TypeError:
  "(optional_field (TaskCreate_validate_due_date now) (p_due_date p) = Inl TypeError)
     = due_date_aware p"
  by (auto simp: optional_field_def TaskCreate_validate_due_date_def due_date_aware_def
           split: supplied.splits option.splits datetime.splits)

lemma TaskUpdate_due_date_TypeError:
  "(update_field (TaskUpdate_validate_due_date now) (p_due_date p) = Inl TypeError)
     = due_date_aware p"
  by (auto simp: update_field_def TaskUpdate_validate_due_date_def due_date_aware_def
           split: supplied.splits option.splits datetime.splits sum.splits)

lemma TaskCreate_validate_Inr:
  "(TaskCreate_validate now p = Inr c) =
     ((\<exists>t. and_then (and_then (required (p_title p)) (max_length 200)) TaskCreate_validate_title = Inr t \<and> c_title c = t)
      \<and> optional_field (optional_str 1000) (p_description p) = Inr (c_description c)
      \<and> with_default pending (p_status p) = Inr (c_status c)
      \<and> with_default medium (p_priority p) = Inr (c_priority c)
      \<and> optional_field (TaskCreate_validate_due_date now) (p_due_date p) = Inr (c_due_date c)
      \<and> optional_field (optional_str 100) (p_assigned_to p) = Inr (c_assigned_to c))"
  unfolding TaskCreate_validate_def Let_def
  by (cases c) (auto simp: field_error_Nil)

lemma TaskUpdate_validate_Inr:
  "(TaskUpdate_validate now p = Inr u) =
     (update_field (\<lambda>v. and_then (optional_str 200 v) TaskUpdate_validate_title) (p_title p) = Inr (u_title u)
      \<and> update_field (optional_str 1000) (p_description p) = Inr (u_description u)
      \<and> update_field Inr (p_status p) = Inr (u_status u)
      \<and> update_field Inr (p_priority p) = Inr (u_priority u)
      \<and> update_field (TaskUpdate_validate_due_date now) (p_due_date p) = Inr (u_due_date u)
      \<and> update_field (optional_str 100) (p_assigned_to p) = Inr (u_assigned_to u))"
  unfolding TaskUpdate_validate_def Let_def
  by (cases u) (auto simp: field_error_Nil)


lemma strip_eq_Nil: "(strip v = []) = blank v"
proof
  assume "strip v = []"
  then have all: "\<forall>x\<in>set (dropWhile isspace v). isspace x"
    by (simp add: strip_def)
  have "dropWhile isspace v = []"
  proof (rule ccontr)
    assume ne: "dropWhile isspace v \<noteq> []"
    then have "\<not> isspace (hd (dropWhile isspace v))" by (rule hd_dropWhile)
    moreover have "hd (dropWhile isspace v) \<in> set (dropWhile isspace v)" using ne by simp
    ultimately show False using all by blast
  qed
  then show "blank v" by (simp add: blank_def dropWhile_eq_Nil_conv list_all_iff)
next
  assume "blank v"
  then have "dropWhile isspace v = []"
    by (auto simp: blank_def dropWhile_eq_Nil_conv list_all_iff)
  then show "strip v = []" by (auto simp: strip_def dest: set_dropWhileD)
qed

lemma set_field_error: "fst ` set (field_error name r) = (if isl r then {name} else {})"
  by (cases r) (simp_all add: field_error_def)

lemma failed_TaskCreate:
  "set (failed_fields (TaskCreate_validate now p)) =
    (if due_date_aware p then {} else
     (if isl (and_then (and_then (required (p_title p)) (max_length 200)) TaskCreate_validate_title) then {''title''} else {})
     \<union> (if isl (optional_field (optional_str 1000) (p_description p)) then {''description''} else {})
     \<union> (if isl (with_default pending (p_status p)) then {''status''} else {})
     \<union> (if isl (with_default medium (p_priority p)) then {''priority''} else {})
     \<union> (if isl (optional_field (TaskCreate_validate_due_date now) (p_due_date p)) then {''due_date''} else {})
     \<union> (if isl (optional_field (optional_str 100) (p_assigned_to p)) then {''assigned_to''} else {}))"
proof (cases "due_date_aware p")
  case True
  then show ?thesis
    unfolding TaskCreate_validate_def Let_def failed_fields_def
    by (simp add: TaskCreate_due_date_TypeError)
next
  case False
  let ?errors = "field_error ''title'' (and_then (and_then (required (p_title p)) (max_length 200)) TaskCreate_validate_title)
        @ field_error ''description'' (optional_field (optional_str 1000) (p_description p))
        @ field_error ''status'' (with_default pending (p_status p))
        @ field_error ''priority'' (with_default medium (p_priority p))
        @ field_error ''due_date'' (optional_field (TaskCreate_validate_due_date now) (p_due_date p))
        @ field_error ''assigned_to'' (optional_field (optional_str 100) (p_assigned_to p))"
  have "set (failed_fields (TaskCreate_validate now p)) = fst ` set ?errors"
    using False unfolding TaskCreate_validate_def Let_def failed_fields_def
    by (simp add: TaskCreate_due_date_TypeError)
  then show ?thesis
    using False by (simp only: set_append image_Un set_field_error Un_assoc if_False)
qed

lemma failed_TaskUpdate:
  "set (failed_fields (TaskUpdate_validate now p)) =
    (if due_date_aware p then {} else
     (if isl (update_field (\<lambda>v. and_then (optional_str 200 v) TaskUpdate_validate_title) (p_title p)) then {''title''} else {})
     \<union> (if isl (update_field (optional_str 1000) (p_description p)) then {''description''} else {})
     \<union> (if isl (update_field Inr (p_status p)) then {''status''} else {})
     \<union> (if isl (update_field Inr (p_priority p)) then {''priority''} else {})
     \<union> (if isl (update_field (TaskUpdate_validate_due_date now) (p_due_date p)) then {''due_date''} else {})
     \<union> (if isl (update_field (optional_str 100) (p_assigned_to p)) then {''assigned_to''} else {}))"
proof (cases "due_date_aware p")
  case True
  then show ?thesis
    unfolding TaskUpdate_validate_def Let_def failed_fields_def
    by (simp add: TaskUpdate_due_date_TypeError)
next
  case False
  let ?errors = "field_error ''title'' (update_field (\<lambda>v. and_then (optional_str 200 v) TaskUpdate_validate_title) (p_title p))
        @ field_error ''description'' (update_field (optional_str 1000) (p_description p))
        @ field_error ''status'' (update_field Inr (p_status p))
        @ field_error ''priority'' (update_field Inr (p_priority p))
        @ field_error ''due_date'' (update_field (TaskUpdate_validate_due_date now) (p_due_date p))
        @ field_error ''assigned_to'' (update_field (optional_str 100) (p_assigned_to p))"
  have "set (failed_fields (TaskUpdate_validate now p)) = fst ` set ?errors"
    using False unfolding TaskUpdate_validate_def Let_def failed_fields_def
    by (simp add: TaskUpdate_due_date_TypeError)
  then show ?thesis
    using False by (simp only: set_append image_Un set_field_error Un_assoc if_False)
qed



lemma title_failed_create:
  "(''title'' \<in> set (failed_fields (TaskCreate_validate now p)))
     = (\<not> due_date_aware p
        \<and> \<not> (\<exists>v. p_title p = Given (Some v) \<and> length v \<le> 200 \<and> \<not> blank v))"
  unfolding failed_TaskCreate
  by (auto simp: required_def and_then_def max_length_def TaskCreate_validate_title_def strip_eq_Nil blank_def
           split: supplied.splits option.splits if_splits)

lemma title_failed_update:
  "(''title'' \<in> set (failed_fields (TaskUpdate_validate now p)))
     = (\<not> due_date_aware p
        \<and> (\<exists>v. p_title p = Given (Some v) \<and> (200 < length v \<or> blank v)))"
  unfolding failed_TaskUpdate
  by (auto simp: update_field_def and_then_def optional_str_def max_length_def TaskUpdate_validate_title_def strip_eq_Nil blank_def
           split: supplied.splits option.splits if_splits sum.splits)


lemma validate_aware:
  "due_date_aware p \<Longrightarrow> TaskCreate_validate now p = Inl TypeError"
  "due_date_aware p \<Longrightarrow> TaskUpdate_validate now p = Inl TypeError"
  unfolding TaskCreate_validate_def TaskUpdate_validate_def Let_def
  by (simp_all add: TaskCreate_due_date_TypeError TaskUpdate_due_date_TypeError)

lemma failed_fields_isl: "x \<in> set (failed_fields r) \<Longrightarrow> isl r"
  by (cases r) (simp_all add: failed_fields_def)

text \<open>
  C6. Title validation. On create, a blank title (empty or whitespace only) makes the
  validation fail, as an error of the field \<open>title\<close> (unless the validation ends in
  the uncaught \<open>TypeError\<close> of an aware due date instead), and a title that is not
  blank is returned trimmed; the validated object holds the trimmed title. On update the
  same holds for a title string that is supplied, and a title that is not supplied is
  never an error and stays unset.
\<close>

theorem title_validation:
  "(blank v \<longrightarrow> isl (TaskCreate_validate_title v))
   \<and> (\<not> blank v \<longrightarrow> TaskCreate_validate_title v = Inr (strip v))
   \<and> (p_title p = Given (Some v) \<and> blank v \<longrightarrow>
        isl (TaskCreate_validate now p)
        \<and> (\<not> due_date_aware p \<longrightarrow> ''title'' \<in> set (failed_fields (TaskCreate_validate now p))))
   \<and> (p_title p = Given (Some v) \<and> \<not> blank v \<and> length v \<le> 200 \<longrightarrow>
        ''title'' \<notin> set (failed_fields (TaskCreate_validate now p)))
   \<and> (p_title p = Given (Some v) \<and> TaskCreate_validate now p = Inr c \<longrightarrow> c_title c = strip v)
   \<and> (blank v \<longrightarrow> isl (TaskUpdate_validate_title (Some v)))
   \<and> (\<not> blank v \<longrightarrow> TaskUpdate_validate_title (Some v) = Inr (Some (strip v)))
   \<and> (p_title p = Given (Some v) \<and> blank v \<longrightarrow>
        isl (TaskUpdate_validate now p)
        \<and> (\<not> due_date_aware p \<longrightarrow> ''title'' \<in> set (failed_fields (TaskUpdate_validate now p))))
   \<and> (p_title p = Given (Some v) \<and> \<not> blank v \<and> length v \<le> 200 \<longrightarrow>
        ''title'' \<notin> set (failed_fields (TaskUpdate_validate now p)))
   \<and> (p_title p = Given (Some v) \<and> TaskUpdate_validate now p = Inr u \<longrightarrow>
        u_title u = Given (Some (strip v)))
   \<and> (p_title p = Unset \<longrightarrow>
        ''title'' \<notin> set (failed_fields (TaskUpdate_validate now p))
        \<and> (TaskUpdate_validate now p = Inr u \<longrightarrow> u_title u = Unset))"
proof -
  have c1: "blank v \<longrightarrow> isl (TaskCreate_validate_title v)"
    by (simp add: TaskCreate_validate_title_def strip_eq_Nil)
  have c2: "\<not> blank v \<longrightarrow> TaskCreate_validate_title v = Inr (strip v)"
    by (auto simp: TaskCreate_validate_title_def strip_eq_Nil blank_def)
  have c3: "p_title p = Given (Some v) \<and> blank v \<longrightarrow>
        isl (TaskCreate_validate now p)
        \<and> (\<not> due_date_aware p \<longrightarrow> ''title'' \<in> set (failed_fields (TaskCreate_validate now p)))"
    using failed_fields_isl [of "''title''" "TaskCreate_validate now p"] validate_aware [of p now]
    by (cases "due_date_aware p") (auto simp: title_failed_create)
  have c4: "p_title p = Given (Some v) \<and> \<not> blank v \<and> length v \<le> 200 \<longrightarrow>
        ''title'' \<notin> set (failed_fields (TaskCreate_validate now p))"
    by (simp add: title_failed_create)
  have c5: "p_title p = Given (Some v) \<and> TaskCreate_validate now p = Inr c \<longrightarrow> c_title c = strip v"
    by (auto simp: TaskCreate_validate_Inr and_then_Inr required_Inr max_length_Inr
                   TaskCreate_validate_title_Inr)
  have u1: "blank v \<longrightarrow> isl (TaskUpdate_validate_title (Some v))"
    by (simp add: TaskUpdate_validate_title_def strip_eq_Nil)
  have u2: "\<not> blank v \<longrightarrow> TaskUpdate_validate_title (Some v) = Inr (Some (strip v))"
    by (auto simp: TaskUpdate_validate_title_def strip_eq_Nil blank_def)
  have u3: "p_title p = Given (Some v) \<and> blank v \<longrightarrow>
        isl (TaskUpdate_validate now p)
        \<and> (\<not> due_date_aware p \<longrightarrow> ''title'' \<in> set (failed_fields (TaskUpdate_validate now p)))"
    using failed_fields_isl [of "''title''" "TaskUpdate_validate now p"] validate_aware [of p now]
    by (cases "due_date_aware p") (auto simp: title_failed_update)
  have u4: "p_title p = Given (Some v) \<and> \<not> blank v \<and> length v \<le> 200 \<longrightarrow>
        ''title'' \<notin> set (failed_fields (TaskUpdate_validate now p))"
    by (simp add: title_failed_update)
  have u5: "p_title p = Given (Some v) \<and> TaskUpdate_validate now p = Inr u \<longrightarrow>
        u_title u = Given (Some (strip v))"
    by (auto simp: TaskUpdate_validate_Inr update_field_Inr and_then_Inr optional_str_Inr
                   TaskUpdate_validate_title_Inr)
  have u6: "p_title p = Unset \<longrightarrow>
        ''title'' \<notin> set (failed_fields (TaskUpdate_validate now p))
        \<and> (TaskUpdate_validate now p = Inr u \<longrightarrow> u_title u = Unset)"
    by (auto simp: title_failed_update TaskUpdate_validate_Inr update_field_Inr)
  from c1 c2 c3 c4 c5 u1 u2 u3 u4 u5 u6 show ?thesis by blast
qed

lemma isspace_simps: "isspace CHR '' ''" "\<not> isspace CHR ''B''" "\<not> isspace CHR ''k''"
  by (simp_all add: isspace_def whitespace_def)

lemma validate_milk:
  "TaskCreate_validate 10 milk_body
     = Inr \<lparr>c_title = ''Buy milk'', c_description = None, c_status = pending,
            c_priority = high, c_due_date = None, c_assigned_to = None\<rparr>"
  by (simp add: TaskCreate_validate_def milk_body_def no_body_def Let_def field_error_def and_then_def
        required_def max_length_def TaskCreate_validate_title_def strip_def isspace_simps
        optional_field_def with_default_def)

lemma validate_retitle:
  "TaskUpdate_validate 12 (no_body\<lparr>p_title := Given (Some '' Buy milk  '')\<rparr>)
     = Inr \<lparr>u_title = Given (Some ''Buy milk''), u_description = Unset, u_status = Unset,
            u_priority = Unset, u_due_date = Unset, u_assigned_to = Unset\<rparr>"
  by (simp add: TaskUpdate_validate_def no_body_def Let_def field_error_def and_then_def
        optional_str_def max_length_def TaskUpdate_validate_title_def strip_def isspace_simps
        update_field_def)

theorem title_validation_witness:
  "isl (TaskCreate_validate_title ''   '')
   \<and> isl (TaskCreate_validate 10 (no_body\<lparr>p_title := Given (Some ''   '')\<rparr>))
   \<and> isl (TaskUpdate_validate 10 (no_body\<lparr>p_title := Given (Some ''   '')\<rparr>))
   \<and> TaskCreate_validate_title '' Buy milk  '' = Inr ''Buy milk''
   \<and> TaskUpdate_validate_title (Some '' Buy milk  '') = Inr (Some ''Buy milk'')
   \<and> c_title \<lparr>c_title = ''Buy milk'', c_description = None, c_status = pending,
               c_priority = high, c_due_date = None, c_assigned_to = None\<rparr> = strip '' Buy milk  ''
   \<and> u_title \<lparr>u_title = Given (Some ''Buy milk''), u_description = Unset, u_status = Unset,
            u_priority = Unset, u_due_date = Unset, u_assigned_to = Unset\<rparr> = Given (Some (strip '' Buy milk  ''))
   \<and> ''title'' \<notin> set (failed_fields (TaskUpdate_validate 10 no_body))"
proof -
  have b: "blank ''   ''" by (simp add: blank_def isspace_simps)
  have nb: "\<not> blank '' Buy milk  ''" by (simp add: blank_def isspace_simps)
  have st: "strip '' Buy milk  '' = ''Buy milk''" by (simp add: strip_def isspace_simps)
  show ?thesis
    using title_validation [of "''   ''" "no_body\<lparr>p_title := Given (Some ''   '')\<rparr>" 10]
      title_validation [of "'' Buy milk  ''" no_body 10]
      title_validation [of "'' Buy milk  ''"
        milk_body 10
        "\<lparr>c_title = ''Buy milk'', c_description = None, c_status = pending,
            c_priority = high, c_due_date = None, c_assigned_to = None\<rparr>"]
      title_validation [of "'' Buy milk  ''"
        "no_body\<lparr>p_title := Given (Some '' Buy milk  '')\<rparr>" 12 _
        "\<lparr>u_title = Given (Some ''Buy milk''), u_description = Unset, u_status = Unset,
            u_priority = Unset, u_due_date = Unset, u_assigned_to = Unset\<rparr>"]
      validate_milk validate_retitle b nb st
    by (simp add: no_body_def)
qed








subsection \<open>The store\<close>

lemma fold_max_ge: "x \<in> set (i # ids) \<Longrightarrow> x \<le> fold max ids (i::int)"
proof (induction ids arbitrary: i x)
  case Nil
  then show ?case by simp
next
  case (Cons j ids)
  have m: "max j i \<le> fold max ids (max j i)" by (rule Cons.IH) simp
  from Cons.prems consider "x = i" | "x = j" | "x \<in> set ids" by auto
  then have "x \<le> fold max ids (max j i)"
  proof cases
    case 1
    then show ?thesis using m by simp
  next
    case 2
    then show ?thesis using m by simp
  next
    case 3
    then show ?thesis using Cons.IH [of x "max j i"] by simp
  qed
  then show ?case by simp
qed

lemma rowids_iff: "(i \<in> set (rowids rows)) = (\<exists>row\<in>set rows. id_of row = Some i)"
  by (induction rows) (auto simp: rowids_def List.map_filter_simps split: option.splits)

lemma next_id_greater: "i \<in> set (rowids rows) \<Longrightarrow> i < next_id rows"
proof -
  assume a: "i \<in> set (rowids rows)"
  then obtain j ids where eq: "rowids rows = j # ids" by (cases "rowids rows") auto
  with a have "i \<le> fold max ids j" using fold_max_ge [of i j ids] by simp
  then show ?thesis by (simp add: next_id_def eq)
qed

lemma next_id_fresh: "row \<in> set rows \<Longrightarrow> id_of row \<noteq> Some (next_id rows)"
  using next_id_greater [of "next_id rows" rows] by (auto simp: rowids_iff)


lemma get_task_Some:
  "get_task s task_id = Inr (Some t) \<Longrightarrow>
     t \<in> set (table s) \<and> id_of t = Some task_id \<and> int64 task_id"
  by (auto simp: get_task_def bind_def find_Some_iff split: if_splits)

lemma fold_max_mem: "fold max ids (i::int) \<in> set (i # ids)"
proof (induction ids arbitrary: i)
  case Nil
  then show ?case by simp
next
  case (Cons j ids)
  have "fold max ids (max j i) \<in> set (max j i # ids)" by (rule Cons.IH)
  then have "fold max ids (max j i) = max j i \<or> fold max ids (max j i) \<in> set ids" by simp
  moreover have "max j i = i \<or> max j i = j" by (simp add: max_def)
  ultimately have "fold max ids (max j i) \<in> set (i # j # ids)" by auto
  then show ?case by simp
qed

lemma next_id_int64: "below_max_rowid rows \<Longrightarrow> int64 (next_id rows)"
proof (cases "rowids rows")
  case Nil
  then show ?thesis by (simp add: next_id_def int64_def)
next
  case (Cons i ids)
  assume "below_max_rowid rows"
  then have all: "\<forall>x\<in>set (i # ids). - (2 ^ 63) \<le> x \<and> x < 2 ^ 63 - 1"
    by (simp add: below_max_rowid_def Cons list_all_iff)
  have "fold max ids i \<in> set (i # ids)" by (rule fold_max_mem)
  with all have "- (2 ^ 63) \<le> fold max ids i \<and> fold max ids i < 2 ^ 63 - 1" by blast
  then show ?thesis by (simp add: next_id_def Cons int64_def)
qed

lemma find_append_fresh:
  "\<forall>x\<in>set xs. \<not> P x \<Longrightarrow> P y \<Longrightarrow> find P (xs @ [y]) = Some y"
  by (induction xs) auto

lemma validated_lengths:
  assumes "TaskCreate_validate t_valid p = Inr c"
  shows "length (c_title c) \<le> 200"
    and "\<forall>v. c_description c = Some v \<longrightarrow> length v \<le> 1000"
    and "\<forall>v. c_assigned_to c = Some v \<longrightarrow> length v \<le> 100"
proof -
  from assms obtain v where "p_title p = Given (Some v)" "length v \<le> 200" "c_title c = strip v"
    by (auto simp: TaskCreate_validate_Inr and_then_Inr required_Inr max_length_Inr
          TaskCreate_validate_title_Inr)
  then show "length (c_title c) \<le> 200"
    using length_strip [of v] by simp
  from assms show "\<forall>v. c_description c = Some v \<longrightarrow> length v \<le> 1000"
    by (auto simp: TaskCreate_validate_Inr optional_field_Inr optional_str_Inr)
  from assms show "\<forall>v. c_assigned_to c = Some v \<longrightarrow> length v \<le> 100"
    by (auto simp: TaskCreate_validate_Inr optional_field_Inr optional_str_Inr)
qed

lemma Task_model_validate_ok:
  assumes "length (c_title c) \<le> 200"
    and "\<forall>v. c_description c = Some v \<longrightarrow> length v \<le> 1000"
    and "\<forall>v. c_assigned_to c = Some v \<longrightarrow> length v \<le> 100"
  shows "Task_model_validate now c =
     Inr \<lparr>id_of = None, title = Some (c_title c), description = c_description c,
          status = Some (c_status c), priority = Some (c_priority c),
          created_at = Naive now, updated_at = None,
          due_date = c_due_date c, assigned_to = c_assigned_to c\<rparr>"
proof -
  have 1: "max_length 200 (c_title c) = Inr (c_title c)"
    using assms(1) by (simp add: max_length_def)
  have 2: "optional_str 1000 (c_description c) = Inr (c_description c)"
    using assms(2) by (simp add: optional_str_Inr)
  have 3: "optional_str 100 (c_assigned_to c) = Inr (c_assigned_to c)"
    using assms(3) by (simp add: optional_str_Inr)
  show ?thesis
    by (simp add: Task_model_validate_def Let_def 1 2 3 field_error_def)
qed

lemma create_task_valid:
  assumes "TaskCreate_validate t_valid p = Inr c"
  shows "create_task s now c =
     Inr (\<lparr>id_of = Some (next_id (table s)), title = Some (c_title c),
           description = c_description c, status = Some (c_status c),
           priority = Some (c_priority c), created_at = Naive now, updated_at = None,
           due_date = c_due_date c, assigned_to = c_assigned_to c\<rparr>,
          \<lparr>table = table s @ [\<lparr>id_of = Some (next_id (table s)), title = Some (c_title c),
             description = c_description c, status = Some (c_status c),
             priority = Some (c_priority c), created_at = Naive now, updated_at = None,
             due_date = c_due_date c, assigned_to = c_assigned_to c\<rparr>],
           commits = commits s + 1\<rparr>)"
  using validated_lengths [OF assms]
  by (simp add: create_task_def Task_model_validate_ok commit_insert_def not_null_ok_def Let_def)


text \<open>
  C8, as amended. A valid creation input is persisted as a new row: its id is the next
  rowid, which no row in the store at the time of creation has and exactly one row has
  after; \<open>created_at\<close> is the time of creation, \<open>updated_at\<close> is \<open>None\<close>, and
  a status or priority that the input leaves out is \<open>pending\<close> or \<open>medium\<close>.
\<close>

theorem create_task_fresh:
  "TaskCreate_validate t_valid p = Inr c \<Longrightarrow>
     \<exists>t s'. create_task s now c = Inr (t, s')
       \<and> id_of t = Some (next_id (table s))
       \<and> (\<forall>row\<in>set (table s). id_of row \<noteq> id_of t)
       \<and> table s' = table s @ [t]
       \<and> filter (\<lambda>row. id_of row = id_of t) (table s') = [t]
       \<and> created_at t = Naive now \<and> updated_at t = None
       \<and> (p_status p = Unset \<longrightarrow> status t = Some pending)
       \<and> (p_priority p = Unset \<longrightarrow> priority t = Some medium)"
proof -
  assume v: "TaskCreate_validate t_valid p = Inr c"
  let ?t = "\<lparr>id_of = Some (next_id (table s)), title = Some (c_title c),
           description = c_description c, status = Some (c_status c),
           priority = Some (c_priority c), created_at = Naive now, updated_at = None,
           due_date = c_due_date c, assigned_to = c_assigned_to c\<rparr>"
  let ?s' = "\<lparr>table = table s @ [?t], commits = commits s + 1\<rparr>"
  have 1: "create_task s now c = Inr (?t, ?s')" by (rule create_task_valid [OF v])
  have 2: "\<forall>row\<in>set (table s). id_of row \<noteq> id_of ?t"
    using next_id_fresh [of _ "table s"] by simp
  then have 3: "filter (\<lambda>row. id_of row = id_of ?t) (table ?s') = [?t]"
    by (simp add: filter_empty_conv)
  have 4: "p_status p = Unset \<longrightarrow> status ?t = Some pending"
    using v by (auto simp: TaskCreate_validate_Inr with_default_Inr)
  have 5: "p_priority p = Unset \<longrightarrow> priority ?t = Some medium"
    using v by (auto simp: TaskCreate_validate_Inr with_default_Inr)
  show ?thesis
    apply (rule exI [of _ ?t], rule exI [of _ ?s'])
    using 1 2 3 4 5 by simp
qed

lemma validate_bread:
  "TaskCreate_validate 20 (no_body\<lparr>p_title := Given (Some ''B'')\<rparr>)
     = Inr \<lparr>c_title = ''B'', c_description = None, c_status = pending,
            c_priority = medium, c_due_date = None, c_assigned_to = None\<rparr>"
  by (simp add: TaskCreate_validate_def no_body_def Let_def field_error_def and_then_def
        required_def max_length_def TaskCreate_validate_title_def strip_def isspace_simps
        optional_field_def with_default_def)

lemma next_id_milk_store: "next_id (table milk_store) = 2"
  by (simp add: milk_store_def milk_def next_id_def rowids_def List.map_filter_simps)

theorem create_task_fresh_witness:
  "TaskCreate_validate 20 (no_body\<lparr>p_title := Given (Some ''B'')\<rparr>)
     = Inr \<lparr>c_title = ''B'', c_description = None, c_status = pending,
            c_priority = medium, c_due_date = None, c_assigned_to = None\<rparr>
   \<and> (\<exists>t s'. create_task milk_store 21 \<lparr>c_title = ''B'', c_description = None, c_status = pending,
            c_priority = medium, c_due_date = None, c_assigned_to = None\<rparr> = Inr (t, s')
         \<and> id_of t = Some 2 \<and> id_of milk \<noteq> id_of t \<and> table s' = [milk, t]
         \<and> created_at t = Naive 21 \<and> updated_at t = None
         \<and> status t = Some pending \<and> priority t = Some medium)"
  using create_task_fresh [OF validate_bread, of milk_store 21] validate_bread next_id_milk_store
  by (auto simp: no_body_def milk_store_def)

lemma create_milk:
  "create_task \<lparr>table = [], commits = n\<rparr> now
      \<lparr>c_title = ''Buy milk'', c_description = None, c_status = pending,
       c_priority = high, c_due_date = None, c_assigned_to = None\<rparr>
     = Inr (milk\<lparr>created_at := Naive now\<rparr>,
            \<lparr>table = [milk\<lparr>created_at := Naive now\<rparr>], commits = n + 1\<rparr>)"
proof -
  have "next_id [] = 1"
    by (simp add: next_id_def rowids_def List.map_filter_simps)
  then show ?thesis
    using create_task_valid [OF validate_milk, of "\<lparr>table = [], commits = n\<rparr>" now]
    by (simp add: milk_def)
qed

theorem create_reuses_id:
  "create_task empty_store 11
      \<lparr>c_title = ''Buy milk'', c_description = None, c_status = pending,
       c_priority = high, c_due_date = None, c_assigned_to = None\<rparr>
     = Inr (milk, milk_store)
   \<and> delete_task milk_store 1 = Inr (True, \<lparr>table = [], commits = 2\<rparr>)
   \<and> create_task \<lparr>table = [], commits = 2\<rparr> 21
      \<lparr>c_title = ''Buy milk'', c_description = None, c_status = pending,
       c_priority = high, c_due_date = None, c_assigned_to = None\<rparr>
     = Inr (milk\<lparr>created_at := Naive 21\<rparr>,
            \<lparr>table = [milk\<lparr>created_at := Naive 21\<rparr>], commits = 3\<rparr>)
   \<and> id_of (milk\<lparr>created_at := Naive 21\<rparr>) = id_of milk"
proof -
  have d: "delete_task milk_store 1 = Inr (True, \<lparr>table = [], commits = 2\<rparr>)"
    by (simp add: delete_task_def get_task_def bind_def int64_def commit_delete_def
          milk_store_def milk_def)
  show ?thesis
    using create_milk [of 0 11] create_milk [of 2 21] d
    by (simp add: empty_store_def milk_store_def milk_def)
qed

text \<open>
  C9. Round trip. After a valid creation in a store whose rowids are below the largest
  64-bit integer, \<open>get_task\<close> with the assigned id returns the created task: its six
  input fields are those of the validated input, and its id and its two timestamps are
  those assigned at creation.
\<close>

theorem create_then_get:
  "TaskCreate_validate t_valid p = Inr c \<Longrightarrow> below_max_rowid (table s) \<Longrightarrow>
     \<exists>t s' i. create_task s now c = Inr (t, s')
       \<and> id_of t = Some i
       \<and> get_task s' i = Inr (Some t)
       \<and> read_task s' i = Inr t
       \<and> title t = Some (c_title c) \<and> description t = c_description c
       \<and> status t = Some (c_status c) \<and> priority t = Some (c_priority c)
       \<and> due_date t = c_due_date c \<and> assigned_to t = c_assigned_to c
       \<and> i = next_id (table s) \<and> created_at t = Naive now \<and> updated_at t = None"
proof -
  assume v: "TaskCreate_validate t_valid p = Inr c" and b: "below_max_rowid (table s)"
  let ?t = "\<lparr>id_of = Some (next_id (table s)), title = Some (c_title c),
           description = c_description c, status = Some (c_status c),
           priority = Some (c_priority c), created_at = Naive now, updated_at = None,
           due_date = c_due_date c, assigned_to = c_assigned_to c\<rparr>"
  let ?s' = "\<lparr>table = table s @ [?t], commits = commits s + 1\<rparr>"
  have 1: "create_task s now c = Inr (?t, ?s')" by (rule create_task_valid [OF v])
  have "\<forall>row\<in>set (table s). \<not> id_of row = Some (next_id (table s))"
    using next_id_fresh [of _ "table s"] by blast
  then have 2: "get_task ?s' (next_id (table s)) = Inr (Some ?t)"
    using next_id_int64 [OF b] by (simp add: get_task_def bind_def find_append_fresh)
  then have 3: "read_task ?s' (next_id (table s)) = Inr ?t"
    by (simp add: read_task_def)
  show ?thesis
    apply (rule exI [of _ ?t], rule exI [of _ ?s'], rule exI [of _ "next_id (table s)"])
    using 1 2 3 by simp
qed

theorem create_then_get_witness:
  "TaskCreate_validate 10 milk_body
     = Inr \<lparr>c_title = ''Buy milk'', c_description = None, c_status = pending,
            c_priority = high, c_due_date = None, c_assigned_to = None\<rparr>
   \<and> below_max_rowid (table empty_store)
   \<and> (\<exists>t s'. create_task empty_store 11 \<lparr>c_title = ''Buy milk'', c_description = None,
            c_status = pending, c_priority = high, c_due_date = None, c_assigned_to = None\<rparr>
          = Inr (t, s')
        \<and> id_of t = Some 1 \<and> get_task s' 1 = Inr (Some t) \<and> read_task s' 1 = Inr t
        \<and> title t = Some ''Buy milk'' \<and> status t = Some pending \<and> priority t = Some high
        \<and> created_at t = Naive 11 \<and> updated_at t = None)"
proof -
  have n: "next_id (table empty_store) = 1"
    by (simp add: empty_store_def next_id_def rowids_def List.map_filter_simps)
  have b: "below_max_rowid (table empty_store)"
    by (simp add: below_max_rowid_def empty_store_def rowids_def List.map_filter_simps)
  show ?thesis
    using create_then_get [OF validate_milk b, of 11] validate_milk n b
    by auto
qed


lemma get_task_milk: "get_task milk_store 1 = Inr (Some milk)"
  by (simp add: get_task_def bind_def int64_def milk_store_def milk_def)

lemma no_fields_dict: "no_fields u = (dict_exclude_unset u = [])"
  by (auto simp: no_fields_def dict_exclude_unset_def entry_def split: supplied.splits)

text \<open>
  C2. An update of an existing task that supplies no fields returns the stored task as it
  is, \<open>updated_at\<close> included, and leaves the session as it was: no row is rewritten
  and nothing is committed. The handler returns the same task.
\<close>

theorem update_no_fields:
  "get_task s task_id = Inr (Some t) \<Longrightarrow> no_fields u \<Longrightarrow>
     update_task s now task_id u = Inr (Some t, s)
     \<and> main_update_task s now task_id u = Inr (t, s)
     \<and> t \<in> set (table s)"
  by (simp add: update_task_def main_update_task_def no_fields_dict get_task_Some)

theorem update_no_fields_witness:
  "get_task milk_store 1 = Inr (Some milk)
   \<and> no_fields \<lparr>u_title = Unset, u_description = Unset, u_status = Unset,
                u_priority = Unset, u_due_date = Unset, u_assigned_to = Unset\<rparr>
   \<and> update_task milk_store 30 1 \<lparr>u_title = Unset, u_description = Unset, u_status = Unset,
                u_priority = Unset, u_due_date = Unset, u_assigned_to = Unset\<rparr>
        = Inr (Some milk, milk_store)
   \<and> updated_at milk = None \<and> commits milk_store = 1"
proof -
  have n: "no_fields \<lparr>u_title = Unset, u_description = Unset, u_status = Unset,
                u_priority = Unset, u_due_date = Unset, u_assigned_to = Unset\<rparr>"
    by (simp add: no_fields_def)
  show ?thesis
    using update_no_fields [OF get_task_milk n, of 30] get_task_milk n
    by (simp add: milk_def milk_store_def)
qed





subsection \<open>Listing\<close>








subsection \<open>Updating\<close>

lemma foldl_entry:
  "foldl setattr t (entry Title f1) = t\<lparr>title := updated f1 (title t)\<rparr>"
  "foldl setattr t (entry Description f2) = t\<lparr>description := updated f2 (description t)\<rparr>"
  "foldl setattr t (entry Status f3) = t\<lparr>status := updated f3 (status t)\<rparr>"
  "foldl setattr t (entry Priority f4) = t\<lparr>priority := updated f4 (priority t)\<rparr>"
  "foldl setattr t (entry Due_date f5) = t\<lparr>due_date := updated f5 (due_date t)\<rparr>"
  "foldl setattr t (entry Assigned_to f6) = t\<lparr>assigned_to := updated f6 (assigned_to t)\<rparr>"
  by (simp_all add: entry_def updated_def split: supplied.splits)

lemma foldl_update_data:
  "foldl setattr t (dict_exclude_unset u @ [Updated_at x]) =
     \<lparr>id_of = id_of t,
      title = updated (u_title u) (title t),
      description = updated (u_description u) (description t),
      status = updated (u_status u) (status t),
      priority = updated (u_priority u) (priority t),
      created_at = created_at t,
      updated_at = x,
      due_date = updated (u_due_date u) (due_date t),
      assigned_to = updated (u_assigned_to u) (assigned_to t)\<rparr>"
  by (simp add: dict_exclude_unset_def foldl_entry)

lemma update_task_Some:
  assumes "get_task s task_id = Inr (Some t)" and "\<not> no_fields u"
  shows "update_task s now task_id u =
     (let t' = foldl setattr t (dict_exclude_unset u @ [Updated_at (Some (Naive now))])
      in if not_null_ok t'
         then Inr (Some t', \<lparr>table = map (\<lambda>row. if id_of row = Some task_id then t' else row) (table s),
                              commits = commits s + 1\<rparr>)
         else Inl IntegrityError)"
proof -
  have i: "id_of (foldl setattr t (dict_exclude_unset u @ [Updated_at (Some (Naive now))])) = Some task_id"
    using get_task_Some [OF assms(1)] by (subst foldl_update_data) simp
  show ?thesis
    using assms i
    by (simp add: update_task_def no_fields_dict commit_update_def Let_def)
qed

lemma updated_not_None: "old \<noteq> None \<Longrightarrow> f \<noteq> Given None \<Longrightarrow> updated f old \<noteq> None"
  by (cases f) (auto simp: updated_def)


lemma find_replaced:
  "id_of t' = Some i \<Longrightarrow>
     find (\<lambda>row. id_of row = Some i) (map (\<lambda>row. if id_of row = Some i then t' else row) rows)
       = (if \<exists>row\<in>set rows. id_of row = Some i then Some t' else None)"
  by (induction rows) auto

text \<open>
  C3, as amended. For an existing task (a row of the table, so with its NOT NULL columns
  set) and a partial input that sets at least one field and gives no null to
  \<open>title\<close>, \<open>status\<close> or \<open>priority\<close>, the update succeeds:
  each field that is set takes the value given, each other field keeps its value,
  \<open>updated_at\<close> becomes the time of the update, \<open>id\<close> and \<open>created_at\<close> are kept,
  and the task's row is the only row rewritten. No update that returns a task changes
  its \<open>id\<close> or \<open>created_at\<close>.
\<close>

theorem update_task_fields:
  "(get_task s task_id = Inr (Some t) \<and> not_null_ok t \<and> \<not> no_fields u
      \<and> u_title u \<noteq> Given None \<and> u_status u \<noteq> Given None \<and> u_priority u \<noteq> Given None \<longrightarrow>
      (\<exists>t' s'. update_task s now task_id u = Inr (Some t', s')
         \<and> title t' = updated (u_title u) (title t)
         \<and> description t' = updated (u_description u) (description t)
         \<and> status t' = updated (u_status u) (status t)
         \<and> priority t' = updated (u_priority u) (priority t)
         \<and> due_date t' = updated (u_due_date u) (due_date t)
         \<and> assigned_to t' = updated (u_assigned_to u) (assigned_to t)
         \<and> updated_at t' = Some (Naive now)
         \<and> id_of t' = id_of t \<and> created_at t' = created_at t
         \<and> table s' = map (\<lambda>row. if id_of row = Some task_id then t' else row) (table s)
         \<and> get_task s' task_id = Inr (Some t')))
   \<and> (get_task s task_id = Inr (Some t) \<and> update_task s now task_id u = Inr (Some r, s2) \<longrightarrow>
         id_of r = id_of t \<and> created_at r = created_at t)"
proof -
  let ?t' = "foldl setattr t (dict_exclude_unset u @ [Updated_at (Some (Naive now))])"
  let ?s' = "\<lparr>table = map (\<lambda>row. if id_of row = Some task_id then ?t' else row) (table s),
              commits = commits s + 1\<rparr>"
  have fields: "title ?t' = updated (u_title u) (title t)
         \<and> description ?t' = updated (u_description u) (description t)
         \<and> status ?t' = updated (u_status u) (status t)
         \<and> priority ?t' = updated (u_priority u) (priority t)
         \<and> due_date ?t' = updated (u_due_date u) (due_date t)
         \<and> assigned_to ?t' = updated (u_assigned_to u) (assigned_to t)
         \<and> updated_at ?t' = Some (Naive now)
         \<and> id_of ?t' = id_of t \<and> created_at ?t' = created_at t"
    by (subst foldl_update_data)+ simp
  have first: "\<exists>t' s'. update_task s now task_id u = Inr (Some t', s')
         \<and> title t' = updated (u_title u) (title t)
         \<and> description t' = updated (u_description u) (description t)
         \<and> status t' = updated (u_status u) (status t)
         \<and> priority t' = updated (u_priority u) (priority t)
         \<and> due_date t' = updated (u_due_date u) (due_date t)
         \<and> assigned_to t' = updated (u_assigned_to u) (assigned_to t)
         \<and> updated_at t' = Some (Naive now)
         \<and> id_of t' = id_of t \<and> created_at t' = created_at t
         \<and> table s' = map (\<lambda>row. if id_of row = Some task_id then t' else row) (table s)
         \<and> get_task s' task_id = Inr (Some t')"
    if g: "get_task s task_id = Inr (Some t)" and nn: "not_null_ok t" and nf: "\<not> no_fields u"
      and n1: "u_title u \<noteq> Given None" and n2: "u_status u \<noteq> Given None"
      and n3: "u_priority u \<noteq> Given None"
  proof -
    have ok: "not_null_ok ?t'"
      using nn n1 n2 n3 unfolding not_null_ok_def
      by (subst foldl_update_data)+ (simp add: updated_not_None)
    have u: "update_task s now task_id u = Inr (Some ?t', ?s')"
      using ok by (simp add: update_task_Some [OF g nf] Let_def)
    have mem: "t \<in> set (table s)" and idt: "id_of t = Some task_id"
      using get_task_Some [OF g] by simp_all
    have "id_of ?t' = Some task_id" using fields idt by simp
    then have "get_task ?s' task_id = Inr (Some ?t')"
      using mem idt get_task_Some [OF g] by (auto simp: get_task_def bind_def find_replaced)
    then show ?thesis
      apply (intro exI [of _ ?t'] exI [of _ ?s'])
      using u fields by simp
  qed
  have second: "id_of r = id_of t \<and> created_at r = created_at t"
    if g: "get_task s task_id = Inr (Some t)" and r: "update_task s now task_id u = Inr (Some r, s2)"
  proof (cases "no_fields u")
    case True
    then show ?thesis using g r by (simp add: update_task_def no_fields_dict)
  next
    case False
    have "r = ?t'"
      using r by (simp add: update_task_Some [OF g False] Let_def split: if_splits)
    then show ?thesis using fields by simp
  qed
  from first second show ?thesis by blast
qed

lemma update_milk_completed:
  "update_task milk_store 13 1
      \<lparr>u_title = Unset, u_description = Unset, u_status = Given (Some completed),
       u_priority = Unset, u_due_date = Unset, u_assigned_to = Unset\<rparr>
     = Inr (Some (milk\<lparr>status := Some completed, updated_at := Some (Naive 13)\<rparr>),
            \<lparr>table = [milk\<lparr>status := Some completed, updated_at := Some (Naive 13)\<rparr>], commits = 2\<rparr>)"
  by (simp add: update_task_def get_task_def bind_def int64_def dict_exclude_unset_def entry_def commit_update_def
        not_null_ok_def milk_def milk_store_def Let_def)

theorem update_task_fields_witness:
  "get_task milk_store 1 = Inr (Some milk) \<and> not_null_ok milk
   \<and> update_task milk_store 13 1
        \<lparr>u_title = Unset, u_description = Unset, u_status = Given (Some completed),
         u_priority = Unset, u_due_date = Unset, u_assigned_to = Unset\<rparr>
       = Inr (Some (milk\<lparr>status := Some completed, updated_at := Some (Naive 13)\<rparr>),
              \<lparr>table = [milk\<lparr>status := Some completed, updated_at := Some (Naive 13)\<rparr>], commits = 2\<rparr>)
   \<and> title (milk\<lparr>status := Some completed, updated_at := Some (Naive 13)\<rparr>) = title milk
   \<and> id_of (milk\<lparr>status := Some completed, updated_at := Some (Naive 13)\<rparr>) = id_of milk
   \<and> created_at (milk\<lparr>status := Some completed, updated_at := Some (Naive 13)\<rparr>) = created_at milk"
  using update_task_fields [of milk_store 1 milk
      "\<lparr>u_title = Unset, u_description = Unset, u_status = Given (Some completed),
         u_priority = Unset, u_due_date = Unset, u_assigned_to = Unset\<rparr>" 13
      "milk\<lparr>status := Some completed, updated_at := Some (Naive 13)\<rparr>"
      "\<lparr>table = [milk\<lparr>status := Some completed, updated_at := Some (Naive 13)\<rparr>], commits = 2\<rparr>"]
    get_task_milk update_milk_completed
  by (simp add: not_null_ok_def milk_def no_fields_def)

theorem update_status_null:
  "get_task milk_store 1 = Inr (Some milk)
   \<and> dict_exclude_unset \<lparr>u_title = Unset, u_description = Unset, u_status = Given None,
        u_priority = Unset, u_due_date = Unset, u_assigned_to = Unset\<rparr> = [Status None]
   \<and> update_task milk_store 13 1
        \<lparr>u_title = Unset, u_description = Unset, u_status = Given None,
         u_priority = Unset, u_due_date = Unset, u_assigned_to = Unset\<rparr> = Inl IntegrityError"
  by (simp add: update_task_def get_task_def bind_def int64_def dict_exclude_unset_def entry_def commit_update_def
        not_null_ok_def milk_def milk_store_def Let_def)


lemma updated_Given: "updated (Given v) old = v"
  by (simp add: updated_def)

lemma validated_nulls:
  assumes "TaskUpdate_validate t_valid p = Inr u"
  shows "p_title p = Given None \<Longrightarrow> u_title u = Given None"
    and "u_status u = p_status p" and "u_priority u = p_priority p"
  using assms
  by (auto simp: TaskUpdate_validate_Inr update_field_Inr and_then_Inr optional_str_Inr
        TaskUpdate_validate_title_Inr)

lemma null_not_failed:
  "p_title p = Given None \<Longrightarrow> ''title'' \<notin> set (failed_fields (TaskUpdate_validate t_valid p))"
  "''status'' \<notin> set (failed_fields (TaskUpdate_validate t_valid p))"
  "''priority'' \<notin> set (failed_fields (TaskUpdate_validate t_valid p))"
proof -
  show "p_title p = Given None \<Longrightarrow> ''title'' \<notin> set (failed_fields (TaskUpdate_validate t_valid p))"
    by (simp add: title_failed_update)
  have s: "\<not> isl (update_field Inr (p_status p))"
    by (simp add: update_field_def split: supplied.splits)
  have pr: "\<not> isl (update_field Inr (p_priority p))"
    by (simp add: update_field_def split: supplied.splits)
  show "''status'' \<notin> set (failed_fields (TaskUpdate_validate t_valid p))"
    unfolding failed_TaskUpdate using s by simp
  show "''priority'' \<notin> set (failed_fields (TaskUpdate_validate t_valid p))"
    unfolding failed_TaskUpdate using pr by simp
qed

lemma entry_mem: "f = Given v \<Longrightarrow> key v \<in> set (entry key f)"
  by (simp add: entry_def)

text \<open>
  C10, as amended. For an existing task, an update body that gives null to \<open>title\<close>,
  \<open>status\<close> or \<open>priority\<close> has no validation error in that field, and the null is
  applied like any value supplied: it is an entry of the update data and is assigned to
  the attribute of the loaded task. It is not stored: the column is NOT NULL, the commit
  raises an integrity error, and the store is as it was.
\<close>

theorem update_null:
  "((p_title p = Given None \<longrightarrow> ''title'' \<notin> set (failed_fields (TaskUpdate_validate t_valid p)))
    \<and> ''status'' \<notin> set (failed_fields (TaskUpdate_validate t_valid p))
    \<and> ''priority'' \<notin> set (failed_fields (TaskUpdate_validate t_valid p)))
   \<and> (get_task s task_id = Inr (Some t) \<and> TaskUpdate_validate t_valid p = Inr u
        \<and> (p_title p = Given None \<or> p_status p = Given None \<or> p_priority p = Given None) \<longrightarrow>
        (p_title p = Given None \<longrightarrow>
           Title None \<in> set (dict_exclude_unset u)
           \<and> title (foldl setattr t (dict_exclude_unset u @ [Updated_at (Some (Naive now))])) = None)
        \<and> (p_status p = Given None \<longrightarrow>
           Status None \<in> set (dict_exclude_unset u)
           \<and> status (foldl setattr t (dict_exclude_unset u @ [Updated_at (Some (Naive now))])) = None)
        \<and> (p_priority p = Given None \<longrightarrow>
           Priority None \<in> set (dict_exclude_unset u)
           \<and> priority (foldl setattr t (dict_exclude_unset u @ [Updated_at (Some (Naive now))])) = None)
        \<and> update_task s now task_id u = Inl IntegrityError
        \<and> main_update_task s now task_id u = Inl IntegrityError
        \<and> serve s (PUT_tasks t_valid now task_id p) = s)"
proof -
  let ?t' = "foldl setattr t (dict_exclude_unset u @ [Updated_at (Some (Naive now))])"
  have second: "(p_title p = Given None \<longrightarrow>
           Title None \<in> set (dict_exclude_unset u) \<and> title ?t' = None)
        \<and> (p_status p = Given None \<longrightarrow>
           Status None \<in> set (dict_exclude_unset u) \<and> status ?t' = None)
        \<and> (p_priority p = Given None \<longrightarrow>
           Priority None \<in> set (dict_exclude_unset u) \<and> priority ?t' = None)
        \<and> update_task s now task_id u = Inl IntegrityError
        \<and> main_update_task s now task_id u = Inl IntegrityError
        \<and> serve s (PUT_tasks t_valid now task_id p) = s"
    if g: "get_task s task_id = Inr (Some t)" and v: "TaskUpdate_validate t_valid p = Inr u"
      and n: "p_title p = Given None \<or> p_status p = Given None \<or> p_priority p = Given None"
  proof -
    note vn = validated_nulls [OF v]
    have a: "p_title p = Given None \<longrightarrow>
           Title None \<in> set (dict_exclude_unset u) \<and> title ?t' = None"
    proof
      assume "p_title p = Given None"
      then have e: "u_title u = Given None" by (rule vn(1))
      then have "Title None \<in> set (dict_exclude_unset u)"
        by (simp add: dict_exclude_unset_def entry_mem)
      moreover have "title ?t' = None"
        by (subst foldl_update_data) (simp add: e updated_Given)
      ultimately show "Title None \<in> set (dict_exclude_unset u) \<and> title ?t' = None" by simp
    qed
    have b: "p_status p = Given None \<longrightarrow>
           Status None \<in> set (dict_exclude_unset u) \<and> status ?t' = None"
    proof
      assume "p_status p = Given None"
      then have e: "u_status u = Given None" by (simp add: vn(2))
      then have "Status None \<in> set (dict_exclude_unset u)"
        by (simp add: dict_exclude_unset_def entry_mem)
      moreover have "status ?t' = None"
        by (subst foldl_update_data) (simp add: e updated_Given)
      ultimately show "Status None \<in> set (dict_exclude_unset u) \<and> status ?t' = None" by simp
    qed
    have c: "p_priority p = Given None \<longrightarrow>
           Priority None \<in> set (dict_exclude_unset u) \<and> priority ?t' = None"
    proof
      assume "p_priority p = Given None"
      then have e: "u_priority u = Given None" by (simp add: vn(3))
      then have "Priority None \<in> set (dict_exclude_unset u)"
        by (simp add: dict_exclude_unset_def entry_mem)
      moreover have "priority ?t' = None"
        by (subst foldl_update_data) (simp add: e updated_Given)
      ultimately show "Priority None \<in> set (dict_exclude_unset u) \<and> priority ?t' = None" by simp
    qed
    from n a b c have nf: "\<not> no_fields u"
      by (auto simp: no_fields_dict)
    from n a b c have "\<not> not_null_ok ?t'"
      unfolding not_null_ok_def by auto
    then have u: "update_task s now task_id u = Inl IntegrityError"
      by (simp add: update_task_Some [OF g nf] Let_def)
    then have m: "main_update_task s now task_id u = Inl IntegrityError"
      by (simp add: main_update_task_def)
    then have "serve s (PUT_tasks t_valid now task_id p) = s"
      by (simp add: v)
    with a b c u m show ?thesis by blast
  qed
  from second null_not_failed [where p = p and t_valid = t_valid] show ?thesis by blast
qed

lemma validate_priority_null:
  "TaskUpdate_validate 12 (no_body\<lparr>p_priority := Given None\<rparr>)
     = Inr \<lparr>u_title = Unset, u_description = Unset, u_status = Unset,
            u_priority = Given None, u_due_date = Unset, u_assigned_to = Unset\<rparr>"
  by (simp add: TaskUpdate_validate_def no_body_def Let_def field_error_def update_field_def)

theorem update_null_witness:
  "get_task milk_store 1 = Inr (Some milk)
   \<and> TaskUpdate_validate 12 (no_body\<lparr>p_priority := Given None\<rparr>)
       = Inr \<lparr>u_title = Unset, u_description = Unset, u_status = Unset,
              u_priority = Given None, u_due_date = Unset, u_assigned_to = Unset\<rparr>
   \<and> p_priority (no_body\<lparr>p_priority := Given None\<rparr>) = Given None
   \<and> update_task milk_store 13 1 \<lparr>u_title = Unset, u_description = Unset, u_status = Unset,
              u_priority = Given None, u_due_date = Unset, u_assigned_to = Unset\<rparr>
       = Inl IntegrityError
   \<and> serve milk_store (PUT_tasks 12 13 1 (no_body\<lparr>p_priority := Given None\<rparr>)) = milk_store"
  using update_null [of "no_body\<lparr>p_priority := Given None\<rparr>" 12 milk_store 1 milk
      "\<lparr>u_title = Unset, u_description = Unset, u_status = Unset,
              u_priority = Given None, u_due_date = Unset, u_assigned_to = Unset\<rparr>" 13]
    get_task_milk validate_priority_null
  by (simp add: no_body_def)

theorem update_title_null:
  "get_task milk_store 1 = Inr (Some milk)
   \<and> TaskUpdate_validate 12 (no_body\<lparr>p_title := Given None\<rparr>)
       = Inr \<lparr>u_title = Given None, u_description = Unset, u_status = Unset,
              u_priority = Unset, u_due_date = Unset, u_assigned_to = Unset\<rparr>
   \<and> update_task milk_store 13 1 \<lparr>u_title = Given None, u_description = Unset, u_status = Unset,
              u_priority = Unset, u_due_date = Unset, u_assigned_to = Unset\<rparr>
       = Inl IntegrityError
   \<and> title milk = Some ''Buy milk''"
  by (simp add: TaskUpdate_validate_def no_body_def Let_def field_error_def update_field_def
        and_then_def optional_str_def TaskUpdate_validate_title_def
        update_task_def get_task_def bind_def int64_def dict_exclude_unset_def entry_def commit_update_def
        not_null_ok_def milk_def milk_store_def)


subsection \<open>The invariant\<close>

lemma status_enumerated:
  "(st \<in> set [Some pending, Some in_progress, Some completed, Some cancelled]) = (st \<noteq> None)"
proof (cases st)
  case None
  then show ?thesis by simp
next
  case (Some v)
  then show ?thesis by (cases v) simp_all
qed

lemma priority_enumerated:
  "(pr \<in> set [Some low, Some medium, Some high, Some urgent]) = (pr \<noteq> None)"
proof (cases pr)
  case None
  then show ?thesis by simp
next
  case (Some v)
  then show ?thesis by (cases v) simp_all
qed

lemma valid_task_iff:
  "valid_task t = ((\<exists>v. title t = Some v \<and> strip v \<noteq> []) \<and> status t \<noteq> None \<and> priority t \<noteq> None)"
  unfolding valid_task_def status_enumerated priority_enumerated
  by (cases "title t") (simp_all add: strip_eq_Nil [symmetric] strip_idem)

lemma create_task_keeps_valid:
  assumes inv: "list_all valid_task (table s)"
    and v: "TaskCreate_validate t_valid p = Inr c"
    and r: "create_task s now c = Inr (t, s')"
  shows "list_all valid_task (table s')"
proof -
  from v obtain w where w: "strip w \<noteq> []" "c_title c = strip w"
    by (auto simp: TaskCreate_validate_Inr and_then_Inr required_Inr max_length_Inr
          TaskCreate_validate_title_Inr)
  have "valid_task \<lparr>id_of = Some (next_id (table s)), title = Some (c_title c),
           description = c_description c, status = Some (c_status c),
           priority = Some (c_priority c), created_at = Naive now, updated_at = None,
           due_date = c_due_date c, assigned_to = c_assigned_to c\<rparr>"
    using w by (simp add: valid_task_iff strip_idem)
  then show ?thesis
    using inv r by (auto simp: create_task_valid [OF v])
qed

lemma validated_title:
  assumes "TaskUpdate_validate t_valid p = Inr u" and "u_title u = Given (Some x)"
  shows "strip x \<noteq> []"
  using assms
  by (auto simp: TaskUpdate_validate_Inr update_field_Inr and_then_Inr optional_str_Inr
        TaskUpdate_validate_title_Inr strip_idem)

lemma update_task_keeps_valid:
  assumes inv: "list_all valid_task (table s)"
    and v: "TaskUpdate_validate t_valid p = Inr u"
    and r: "update_task s now task_id u = Inr (res, s')"
  shows "list_all valid_task (table s')"
proof (cases "get_task s task_id")
  case (Inl e)
  then show ?thesis using r by (simp add: update_task_def)
next
  case (Inr found)
  show ?thesis
  proof (cases found)
    case None
    then show ?thesis using inv r Inr by (simp add: update_task_def)
  next
    case (Some t)
    then have Some: "get_task s task_id = Inr (Some t)" using Inr by simp
    show ?thesis
    proof (cases "no_fields u")
    case True
    then show ?thesis using inv r Some by (simp add: update_task_def no_fields_dict)
  next
    case False
    define t' where "t' = foldl setattr t (dict_exclude_unset u @ [Updated_at (Some (Naive now))])"
    have eq: "update_task s now task_id u =
        (if not_null_ok t'
         then Inr (Some t', \<lparr>table = map (\<lambda>row. if id_of row = Some task_id then t' else row) (table s),
                              commits = commits s + 1\<rparr>)
         else Inl IntegrityError)"
      unfolding t'_def using update_task_Some [OF Some False, of now] by (simp only: Let_def)
    from r eq have ok: "not_null_ok t'"
      and s': "s' = \<lparr>table = map (\<lambda>row. if id_of row = Some task_id then t' else row) (table s),
                      commits = commits s + 1\<rparr>"
      by (auto split: if_splits)
    have "t \<in> set (table s)" using get_task_Some [OF Some] by simp
    then have vt: "valid_task t" using inv by (simp add: list_all_iff)
    have tt: "title t' = updated (u_title u) (title t)"
      unfolding t'_def by (subst foldl_update_data) simp
    have nn: "updated (u_title u) (title t) \<noteq> None" "status t' \<noteq> None" "priority t' \<noteq> None"
      using ok tt unfolding not_null_ok_def by auto
    have "\<exists>x. title t' = Some x \<and> strip x \<noteq> []"
    proof (cases "u_title u")
      case Unset
      then show ?thesis using vt tt by (simp add: updated_def valid_task_iff)
    next
      case (Given x)
      with nn(1) obtain y where y: "x = Some y" by (auto simp: updated_def)
      then have "strip y \<noteq> []" using validated_title [OF v] Given by simp
      then show ?thesis using tt Given y by (simp add: updated_def)
    qed
    then have "valid_task t'" using nn by (simp add: valid_task_iff)
    then show ?thesis using inv s' by (auto simp: list_all_iff)
  qed
  qed
qed

lemma delete_task_keeps_valid:
  "list_all valid_task (table s) \<Longrightarrow> delete_task s task_id = Inr (res, s') \<Longrightarrow>
     list_all valid_task (table s')"
  by (auto simp: delete_task_def commit_delete_def list_all_iff split: sum.splits option.splits)

lemma serve_keeps_valid:
  "list_all valid_task (table s) \<Longrightarrow> list_all valid_task (table (serve s request))"
proof (cases request)
  case (POST_tasks t_valid t_run body)
  assume inv: "list_all valid_task (table s)"
  show ?thesis
    using inv create_task_keeps_valid [OF inv, of t_valid body _ t_run]
    by (auto simp: POST_tasks main_create_task_def split: sum.splits)
next
  case (PUT_tasks t_valid t_run task_id body)
  assume inv: "list_all valid_task (table s)"
  show ?thesis
    using inv update_task_keeps_valid [OF inv, of t_valid body _ t_run task_id]
    by (auto simp: PUT_tasks main_update_task_def split: sum.splits option.splits)
next
  case (DELETE_tasks task_id)
  assume inv: "list_all valid_task (table s)"
  show ?thesis
    using inv delete_task_keeps_valid [OF inv, of task_id]
    by (auto simp: DELETE_tasks main_delete_task_def split: sum.splits prod.splits bool.splits)
qed

lemma foldl_serve_keeps_valid:
  "list_all valid_task (table s) \<Longrightarrow> list_all valid_task (table (foldl serve s requests))"
  by (induction requests arbitrary: s) (simp_all add: serve_keeps_valid)


text \<open>
  Every task that \<open>get_task\<close> finds in a store reached from the empty one has its
  NOT NULL columns set.
\<close>

lemma run_not_null_ok:
  assumes "get_task (run requests) task_id = Inr (Some t)"
  shows "not_null_ok t"
proof -
  have "list_all valid_task (table empty_store)" by (simp add: empty_store_def)
  then have "list_all valid_task (table (run requests))"
    unfolding run_def by (rule foldl_serve_keeps_valid)
  moreover have "t \<in> set (table (run requests))" using get_task_Some [OF assms] by simp
  ultimately have "valid_task t" by (simp add: list_all_iff)
  then show ?thesis by (auto simp: valid_task_iff not_null_ok_def)
qed

text \<open>
  C1. Every task persisted in a store reached from the empty store by any sequence of
  create, update and delete requests has a title that is not blank after trimming, a
  status among the four enumerated values and a priority among the four enumerated
  values. Each request preserves this, and so does every update that succeeds.
\<close>

theorem persisted_tasks_valid:
  "list_all valid_task (table (run requests))
   \<and> (list_all valid_task (table s) \<longrightarrow> list_all valid_task (table (serve s request)))
   \<and> (list_all valid_task (table s) \<and> TaskUpdate_validate t_valid p = Inr u
        \<and> update_task s now task_id u = Inr (res, s') \<longrightarrow> list_all valid_task (table s'))"
proof -
  have "list_all valid_task (table empty_store)" by (simp add: empty_store_def)
  then have "list_all valid_task (table (run requests))"
    unfolding run_def by (rule foldl_serve_keeps_valid)
  then show ?thesis
    using serve_keeps_valid [of s request] update_task_keeps_valid [of s t_valid p u now task_id res s']
    by blast
qed

lemma validate_completed:
  "TaskUpdate_validate 12 (no_body\<lparr>p_status := Given (Some completed)\<rparr>)
     = Inr \<lparr>u_title = Unset, u_description = Unset, u_status = Given (Some completed),
            u_priority = Unset, u_due_date = Unset, u_assigned_to = Unset\<rparr>"
  by (simp add: TaskUpdate_validate_def no_body_def Let_def field_error_def update_field_def)

lemma serve_post_milk: "serve empty_store (POST_tasks 10 11 milk_body) = milk_store"
proof -
  have "next_id (table empty_store) = 1"
    by (simp add: empty_store_def next_id_def rowids_def List.map_filter_simps)
  then show ?thesis
    using create_task_valid [OF validate_milk, of empty_store 11]
    by (simp add: validate_milk main_create_task_def milk_store_def milk_def empty_store_def)
qed

lemma serve_put_completed:
  "serve milk_store (PUT_tasks 12 13 1 (no_body\<lparr>p_status := Given (Some completed)\<rparr>))
     = \<lparr>table = [milk\<lparr>status := Some completed, updated_at := Some (Naive 13)\<rparr>], commits = 2\<rparr>"
  by (simp add: validate_completed main_update_task_def update_milk_completed)

theorem persisted_tasks_valid_witness:
  "run [POST_tasks 10 11 milk_body, PUT_tasks 12 13 1 (no_body\<lparr>p_status := Given (Some completed)\<rparr>)]
     = \<lparr>table = [milk\<lparr>status := Some completed, updated_at := Some (Naive 13)\<rparr>], commits = 2\<rparr>
   \<and> list_all valid_task (table milk_store)
   \<and> valid_task (milk\<lparr>status := Some completed, updated_at := Some (Naive 13)\<rparr>)
   \<and> TaskUpdate_validate 12 (no_body\<lparr>p_status := Given (Some completed)\<rparr>)
     = Inr \<lparr>u_title = Unset, u_description = Unset, u_status = Given (Some completed),
            u_priority = Unset, u_due_date = Unset, u_assigned_to = Unset\<rparr>
   \<and> update_task milk_store 13 1
        \<lparr>u_title = Unset, u_description = Unset, u_status = Given (Some completed),
         u_priority = Unset, u_due_date = Unset, u_assigned_to = Unset\<rparr>
       = Inr (Some (milk\<lparr>status := Some completed, updated_at := Some (Naive 13)\<rparr>),
              \<lparr>table = [milk\<lparr>status := Some completed, updated_at := Some (Naive 13)\<rparr>], commits = 2\<rparr>)"
proof -
  have r1: "run [POST_tasks 10 11 milk_body] = milk_store"
    by (simp only: run_def foldl_Cons foldl_Nil serve_post_milk)
  have r2: "run [POST_tasks 10 11 milk_body, PUT_tasks 12 13 1 (no_body\<lparr>p_status := Given (Some completed)\<rparr>)]
     = \<lparr>table = [milk\<lparr>status := Some completed, updated_at := Some (Naive 13)\<rparr>], commits = 2\<rparr>"
    by (simp only: run_def foldl_Cons foldl_Nil serve_post_milk serve_put_completed)
  have v1: "list_all valid_task (table milk_store)"
    using persisted_tasks_valid [of "[POST_tasks 10 11 milk_body]"] r1 by simp
  have v2: "valid_task (milk\<lparr>status := Some completed, updated_at := Some (Naive 13)\<rparr>)"
    using persisted_tasks_valid [of _ milk_store _ 12 "no_body\<lparr>p_status := Given (Some completed)\<rparr>"
        "\<lparr>u_title = Unset, u_description = Unset, u_status = Given (Some completed),
            u_priority = Unset, u_due_date = Unset, u_assigned_to = Unset\<rparr>" 13 1
        "Some (milk\<lparr>status := Some completed, updated_at := Some (Naive 13)\<rparr>)"
        "\<lparr>table = [milk\<lparr>status := Some completed, updated_at := Some (Naive 13)\<rparr>], commits = 2\<rparr>"]
      v1 validate_completed update_milk_completed
    by simp
  show ?thesis using r2 v1 v2 validate_completed update_milk_completed by simp
qed


subsection \<open>The rowids of a reachable store\<close>

text \<open>
  Every rowid of a store reached from the empty one is at least 1 and at most the number
  of commits, which is at most the number of requests served. So a store reached by
  fewer than \<open>2^63 - 1\<close> requests satisfies \<open>below_max_rowid\<close>.
\<close>

lemma create_task_result:
  "create_task s now c = Inr (t, s') \<Longrightarrow>
     id_of t = Some (next_id (table s))
     \<and> s' = \<lparr>table = table s @ [t], commits = commits s + 1\<rparr>"
  by (auto simp: create_task_def commit_insert_def Let_def split: sum.splits if_splits)

lemma update_task_result:
  assumes "update_task s now task_id u = Inr (res, s')"
  shows "s' = s
     \<or> (\<exists>t'. id_of t' = Some task_id \<and> (\<exists>row\<in>set (table s). id_of row = Some task_id)
           \<and> s' = \<lparr>table = map (\<lambda>row. if id_of row = Some task_id then t' else row) (table s),
                     commits = commits s + 1\<rparr>)"
proof (cases "get_task s task_id")
  case (Inl e)
  then show ?thesis using assms by (simp add: update_task_def)
next
  case (Inr found)
  show ?thesis
  proof (cases found)
    case None
    then show ?thesis using assms Inr by (simp add: update_task_def)
  next
    case (Some t)
    then have g: "get_task s task_id = Inr (Some t)" using Inr by simp
    show ?thesis
    proof (cases "no_fields u")
      case True
      then show ?thesis using assms g by (simp add: update_task_def no_fields_dict)
    next
      case False
      define t' where "t' = foldl setattr t (dict_exclude_unset u @ [Updated_at (Some (Naive now))])"
      have eq: "update_task s now task_id u =
        (if not_null_ok t'
         then Inr (Some t', \<lparr>table = map (\<lambda>row. if id_of row = Some task_id then t' else row) (table s),
                              commits = commits s + 1\<rparr>)
         else Inl IntegrityError)"
        unfolding t'_def using update_task_Some [OF g False, of now] by (simp only: Let_def)
      have "id_of t' = Some task_id"
        unfolding t'_def using get_task_Some [OF g] by (subst foldl_update_data) simp
      moreover have "\<exists>row\<in>set (table s). id_of row = Some task_id"
        using get_task_Some [OF g] by blast
      moreover have "s' = \<lparr>table = map (\<lambda>row. if id_of row = Some task_id then t' else row) (table s),
                              commits = commits s + 1\<rparr>"
        using assms eq by (auto split: if_splits)
      ultimately show ?thesis by blast
    qed
  qed
qed

lemma next_id_bounds:
  assumes "\<forall>i\<in>set (rowids rows). 1 \<le> i \<and> i \<le> n" and "0 \<le> n"
  shows "1 \<le> next_id rows \<and> next_id rows \<le> n + 1"
proof (cases "rowids rows")
  case Nil
  then show ?thesis using assms(2) by (simp add: next_id_def)
next
  case (Cons i ids)
  have "fold max ids i \<in> set (i # ids)" by (rule fold_max_mem)
  then have "1 \<le> fold max ids i \<and> fold max ids i \<le> n" using assms(1) Cons by auto
  then show ?thesis by (simp add: next_id_def Cons)
qed

lemma serve_rowids:
  assumes "\<forall>i\<in>set (rowids (table s)). 1 \<le> i \<and> i \<le> int (commits s)"
  shows "(\<forall>i\<in>set (rowids (table (serve s request))). 1 \<le> i \<and> i \<le> int (commits (serve s request)))
     \<and> commits (serve s request) \<le> commits s + 1"
proof -
  have keep: "(\<forall>i\<in>set (rowids (table s)). 1 \<le> i \<and> i \<le> int (commits s))
     \<and> commits s \<le> commits s + 1"
    using assms by simp
  have a: "\<forall>row\<in>set (table s). \<forall>i. id_of row = Some i \<longrightarrow> 1 \<le> i \<and> i \<le> int (commits s)"
    using assms by (auto simp: rowids_iff)
  have created: "(\<forall>i\<in>set (rowids (table s')). 1 \<le> i \<and> i \<le> int (commits s'))
     \<and> commits s' \<le> commits s + 1"
    if "create_task s now c = Inr (t, s')" for now c t s'
  proof -
    from that have t: "id_of t = Some (next_id (table s))"
      and s': "s' = \<lparr>table = table s @ [t], commits = commits s + 1\<rparr>"
      using create_task_result by blast+
    have "1 \<le> next_id (table s) \<and> next_id (table s) \<le> int (commits s) + 1"
      using next_id_bounds [OF assms] by simp
    then show ?thesis using a t s' by (fastforce simp: rowids_iff)
  qed
  have updated: "(\<forall>i\<in>set (rowids (table s')). 1 \<le> i \<and> i \<le> int (commits s'))
     \<and> commits s' \<le> commits s + 1"
    if "update_task s now task_id u = Inr (res, s')" for now task_id u res s'
    using update_task_result [OF that] a keep by (fastforce simp: rowids_iff split: if_splits)
  have deleted: "(\<forall>i\<in>set (rowids (table s')). 1 \<le> i \<and> i \<le> int (commits s'))
     \<and> commits s' \<le> commits s + 1"
    if "delete_task s task_id = Inr (res, s')" for task_id res s'
    using that a keep
    by (fastforce simp: delete_task_def commit_delete_def rowids_iff split: sum.splits option.splits)
  show ?thesis
  proof (cases request)
    case (POST_tasks t_valid t_run body)
    then show ?thesis using keep created
      by (auto simp: main_create_task_def split: sum.splits)
  next
    case (PUT_tasks t_valid t_run task_id body)
    then show ?thesis using keep updated
      by (auto simp: main_update_task_def split: sum.splits option.splits)
  next
    case (DELETE_tasks task_id)
    then show ?thesis using keep deleted
      by (auto simp: main_delete_task_def split: sum.splits bool.splits)
  qed
qed

lemma foldl_serve_rowids:
  "\<forall>i\<in>set (rowids (table s)). 1 \<le> i \<and> i \<le> int (commits s) \<Longrightarrow>
     (\<forall>i\<in>set (rowids (table (foldl serve s requests))).
         1 \<le> i \<and> i \<le> int (commits (foldl serve s requests)))
     \<and> commits (foldl serve s requests) \<le> commits s + length requests"
proof (induction requests arbitrary: s)
  case Nil
  then show ?case by simp
next
  case (Cons request requests)
  have 1: "\<forall>i\<in>set (rowids (table (serve s request))). 1 \<le> i \<and> i \<le> int (commits (serve s request))"
    and 2: "commits (serve s request) \<le> commits s + 1"
    using serve_rowids [OF Cons.prems, of request] by blast+
  have "commits (foldl serve (serve s request) requests) \<le> commits (serve s request) + length requests"
    using Cons.IH [OF 1] by blast
  then show ?case using Cons.IH [OF 1] 2 by simp
qed

lemma run_below_max_rowid:
  assumes "int (length requests) < 2 ^ 63 - 1"
  shows "below_max_rowid (table (run requests))"
proof -
  have "\<forall>i\<in>set (rowids (table empty_store)). 1 \<le> i \<and> i \<le> int (commits empty_store)"
    by (simp add: empty_store_def rowids_def List.map_filter_simps)
  from foldl_serve_rowids [OF this, of requests]
  have b: "\<forall>i\<in>set (rowids (table (run requests))). 1 \<le> i \<and> i \<le> int (commits (run requests))"
    and c: "commits (run requests) \<le> length requests"
    by (simp_all add: run_def empty_store_def)
  have "\<forall>i\<in>set (rowids (table (run requests))). - (2 ^ 63) \<le> i \<and> i < 2 ^ 63 - 1"
  proof
    fix i assume "i \<in> set (rowids (table (run requests)))"
    with b have "1 \<le> i" "i \<le> int (commits (run requests))" by auto
    moreover have "int (commits (run requests)) \<le> int (length requests)" using c by simp
    ultimately show "- (2 ^ 63) \<le> i \<and> i < 2 ^ 63 - 1" using assms by simp
  qed
  then show ?thesis by (simp add: below_max_rowid_def list_all_iff)
qed

end
